theory Spec2Isabelle
  imports Main
begin

section \<open>Data model of dependencies/packageswithdeps.go\<close>

text \<open>
  Byte slices and Go strings are byte lists. A Go \<^verbatim>\<open>error\<close> value is its message; the nil
  error is \<open>None\<close>.
\<close>

type_synonym bytes = string
type_synonym error = string

text \<open>
  The fields of \<^verbatim>\<open>Package\<close> that this file reads and writes (\<^verbatim>\<open>id\<close>, \<^verbatim>\<open>modContent\<close>, and the
  archive location behind \<^verbatim>\<open>GetZipPath\<close>). The field \<^verbatim>\<open>id\<close> is written \<open>id_pkg\<close>.
\<close>

record Package =
  id_pkg :: string
  modContent :: bytes
  zipPath :: string

text \<open>
  A compiled \<^verbatim>\<open>*regexp.Regexp\<close> is represented by its \<^verbatim>\<open>FindString\<close> function. \<^verbatim>\<open>RegExp\<close>
  holds the two expressions this file asks for.
\<close>

type_synonym Regexp = "string \<Rightarrow> string"

datatype RegExp = RegExp (GetNotEmptyModRegex: Regexp) (GetGeneratedBy: Regexp)

type_synonym TidyEnum = nat

text \<open>
  \<^verbatim>\<open>PackageWithDeps\<close>. The slice \<^verbatim>\<open>transitiveDependencies\<close> is only ever nil or the result of
  appends to a nil slice, so nil is the empty list. \<^verbatim>\<open>Dependency\<close> is a pointer in the source;
  every node points to a package of its own, so the package is held by value.
\<close>

datatype PackageWithDeps = PackageWithDeps
  (Dependency: Package)
  (transitiveDependencies: "PackageWithDeps list")
  (regExp: RegExp)
  (runGoModCommand: bool)
  (shouldRevertToEmptyMod: bool)
  (TidyEnum: TidyEnum)
  (cachePath: string)
  (GoModEditMessage: string)
  (originalModContent: bytes)

fun set_Dependency :: "Package \<Rightarrow> PackageWithDeps \<Rightarrow> PackageWithDeps" where
  "set_Dependency d' (PackageWithDeps d t r g s e c m o') = PackageWithDeps d' t r g s e c m o'"

fun set_transitiveDependencies :: "PackageWithDeps list \<Rightarrow> PackageWithDeps \<Rightarrow> PackageWithDeps" where
  "set_transitiveDependencies t' (PackageWithDeps d t r g s e c m o') =
     PackageWithDeps d t' r g s e c m o'"

fun set_shouldRevertToEmptyMod :: "bool \<Rightarrow> PackageWithDeps \<Rightarrow> PackageWithDeps" where
  "set_shouldRevertToEmptyMod s' (PackageWithDeps d t r g s e c m o') =
     PackageWithDeps d t r g s' e c m o'"

fun set_originalModContent :: "bytes \<Rightarrow> PackageWithDeps \<Rightarrow> PackageWithDeps" where
  "set_originalModContent x (PackageWithDeps d t r g s e c m o') =
     PackageWithDeps d t r g s e c m x"

definition GetId :: "PackageWithDeps \<Rightarrow> string" where
  "GetId pwd = id_pkg (Dependency pwd)"

definition GetModContent :: "PackageWithDeps \<Rightarrow> bytes" where
  "GetModContent pwd = modContent (Dependency pwd)"

definition GetZipPath :: "PackageWithDeps \<Rightarrow> string" where
  "GetZipPath pwd = zipPath (Dependency pwd)"

definition SetModContent :: "bytes \<Rightarrow> PackageWithDeps \<Rightarrow> PackageWithDeps" where
  "SetModContent c pwd = set_Dependency ((Dependency pwd)\<lparr>modContent := c\<rparr>) pwd"

text \<open>
  Modelled from the spec: the type \<^verbatim>\<open>cache.DependenciesCache\<close> (utils/cache) is not among the
  sources. Spec 3 and 4.1: a mapping from package ID to a published flag (absent = never
  seen) and the counters total, success and failure with the operations
  \<^verbatim>\<open>incrementTotal(n)\<close>, \<^verbatim>\<open>incrementSuccess()\<close>, \<^verbatim>\<open>incrementFailure()\<close>.
\<close>

record DependenciesCache =
  GetMap :: "string \<rightharpoonup> bool"
  total :: nat
  successes :: nat
  failures :: nat

text \<open>
  What the resolver does to its surroundings, in the order it does it: every call of an
  external capability with its arguments, and every line it logs (\<^verbatim>\<open>log.Debug\<close> with the
  list of its arguments).
\<close>

datatype event =
    Debug "string list"
  | LogError error
  | Call_downloadModFileFromArtifactoryToLocalCache string string string string
  | Call_ReadFile string
  | Call_WriteFile string bytes
  | Call_Unsetenv string
  | Call_Chdir string
  | Call_createDependencyInTemp string
  | Call_IsFileExists string
  | Call_Remove string
  | Call_RunGoModInit string string
  | Call_populateModWithTidy string
  | Call_runGoModGraph
  | Call_removeGoSum string
  | Call_GetSumContentAndRemove string
  | Call_RestoreSumFile string bytes
  | Call_createDependency string string string
  | Call_shouldDownloadFromArtifactory string string string
  | Call_downloadAndCreateDependency string string string string string bool
  | Call_Publish string Package
  | Call_RemoveAll string

text \<open>
  The state the resolver runs in: the shared cache, the process environment and working
  directory, everything outside the process (file system, build tool, repositories) as a
  value of a type \<open>'w\<close> that only the external capabilities can read or change, and the
  record of events so far.
\<close>

record 'w state =
  cache :: DependenciesCache
  env :: "string \<rightharpoonup> string"
  cwd :: string
  world :: 'w
  trace :: "event list"

text \<open>
  The external capabilities (spec 6) and the helpers of other files and libraries, as
  functions of the outside world. A pair \<open>(v, err)\<close> is a Go result with its error.
  \<^verbatim>\<open>createDependency\<close> and \<^verbatim>\<open>downloadAndCreateDependency\<close> give the manifest content and the
  archive location of the package they produce, or \<open>None\<close> for a nil package.
\<close>

record 'w ext =
  downloadModFileFromArtifactoryToLocalCache ::
    "string \<Rightarrow> string \<Rightarrow> string \<Rightarrow> string \<Rightarrow> 'w \<Rightarrow> string \<times> 'w"
  ReadFile :: "string \<Rightarrow> 'w \<Rightarrow> (bytes \<times> error option) \<times> 'w"
  WriteFile :: "string \<Rightarrow> bytes \<Rightarrow> 'w \<Rightarrow> error option \<times> 'w"
  Unsetenv :: "string \<Rightarrow> 'w \<Rightarrow> error option \<times> 'w"
  Chdir :: "string \<Rightarrow> 'w \<Rightarrow> error option \<times> 'w"
  createDependencyInTemp :: "string \<Rightarrow> 'w \<Rightarrow> (string \<times> error option) \<times> 'w"
  IsFileExists :: "string \<Rightarrow> 'w \<Rightarrow> (bool \<times> error option) \<times> 'w"
  Remove :: "string \<Rightarrow> 'w \<Rightarrow> error option \<times> 'w"
  RunGoModInit :: "string \<Rightarrow> string \<Rightarrow> 'w \<Rightarrow> error option \<times> 'w"
  populateModWithTidy :: "string \<Rightarrow> 'w \<Rightarrow> error option \<times> 'w"
  runGoModGraph :: "'w \<Rightarrow> (string list \<times> error option) \<times> 'w"
  removeGoSum :: "string \<Rightarrow> 'w \<Rightarrow> error option \<times> 'w"
  GetSumContentAndRemove :: "string \<Rightarrow> 'w \<Rightarrow> ((bytes \<times> bool \<times> error option) \<times> 'w)"
  RestoreSumFile :: "string \<Rightarrow> bytes \<Rightarrow> 'w \<Rightarrow> unit \<times> 'w"
  createDependency ::
    "string \<Rightarrow> string \<Rightarrow> string \<Rightarrow> 'w \<Rightarrow> ((bytes \<times> string) option \<times> error option) \<times> 'w"
  shouldDownloadFromArtifactory ::
    "string \<Rightarrow> string \<Rightarrow> string \<Rightarrow> 'w \<Rightarrow> (bool \<times> error option) \<times> 'w"
  downloadAndCreateDependency ::
    "string \<Rightarrow> string \<Rightarrow> string \<Rightarrow> string \<Rightarrow> string \<Rightarrow> bool \<Rightarrow> 'w
      \<Rightarrow> ((bytes \<times> string) option \<times> error option) \<times> 'w"
  publish :: "string \<Rightarrow> Package \<Rightarrow> 'w \<Rightarrow> error option \<times> 'w"
  RemoveAll :: "string \<Rightarrow> 'w \<Rightarrow> error option \<times> 'w"
  getDependencyName :: "string \<Rightarrow> string"
  replaceExclamationMarkWithUpperCase :: "string \<Rightarrow> string"
  Join :: "string list \<Rightarrow> string"
  Dir :: "string \<Rightarrow> string"
  GetFileSeparator :: string

text \<open>
  A run ends in a normal return, in a Go panic (an index out of range), or is cut off
  when the bound on the recursion depth is used up.
\<close>

datatype 'a outcome = OutOfFuel | Panic | Normal 'a

fun bind :: "'a outcome \<Rightarrow> ('a \<Rightarrow> 'b outcome) \<Rightarrow> 'b outcome" where
  "bind OutOfFuel f = OutOfFuel"
| "bind Panic f = Panic"
| "bind (Normal x) f = f x"

section \<open>Library functions\<close>

text \<open>\<^verbatim>\<open>strings.Split(s, sep)\<close> for a separator of one byte: never empty.\<close>

fun Split :: "string \<Rightarrow> char \<Rightarrow> string list" where
  "Split [] sep = [[]]"
| "Split (x # xs) sep =
     (if x = sep then [] # Split xs sep
      else (case Split xs sep of [] \<Rightarrow> [[x]] | y # ys \<Rightarrow> (x # y) # ys))"

text \<open>\<^verbatim>\<open>strings.Join(parts, sep)\<close>.\<close>

fun Join_strings :: "string list \<Rightarrow> string \<Rightarrow> string" where
  "Join_strings [] sep = []"
| "Join_strings [x] sep = x"
| "Join_strings (x # y # ys) sep = x @ sep @ Join_strings (y # ys) sep"

text \<open>\<^verbatim>\<open>strings.Replace(s, old, new, 1)\<close> for \<^verbatim>\<open>old\<close> of one byte: the first occurrence only.\<close>

fun Replace_first :: "string \<Rightarrow> char \<Rightarrow> string \<Rightarrow> string" where
  "Replace_first [] old new = []"
| "Replace_first (x # xs) old new = (if x = old then new @ xs else x # Replace_first xs old new)"

definition GOPROXY :: string where
  "GOPROXY = ''GOPROXY''"

section \<open>Cache operations, logging, calls of external capabilities\<close>

definition IncrementTotal :: "nat \<Rightarrow> 'w state \<Rightarrow> 'w state" where
  "IncrementTotal n st = st\<lparr>cache := (cache st)\<lparr>total := total (cache st) + n\<rparr>\<rparr>"

definition IncrementSuccess :: "'w state \<Rightarrow> 'w state" where
  "IncrementSuccess st = st\<lparr>cache := (cache st)\<lparr>successes := successes (cache st) + 1\<rparr>\<rparr>"

definition IncrementFailures :: "'w state \<Rightarrow> 'w state" where
  "IncrementFailures st = st\<lparr>cache := (cache st)\<lparr>failures := failures (cache st) + 1\<rparr>\<rparr>"

text \<open>\<^verbatim>\<open>published, _ := m[id]\<close>: false for an absent key.\<close>

definition published_in :: "'w state \<Rightarrow> string \<Rightarrow> bool" where
  "published_in st k = (case GetMap (cache st) k of None \<Rightarrow> False | Some b \<Rightarrow> b)"

text \<open>\<^verbatim>\<open>m[id] = b\<close>.\<close>

definition map_store :: "string \<Rightarrow> bool \<Rightarrow> 'w state \<Rightarrow> 'w state" where
  "map_store k b st = st\<lparr>cache := (cache st)\<lparr>GetMap := (GetMap (cache st))(k \<mapsto> b)\<rparr>\<rparr>"

definition emit :: "event \<Rightarrow> 'w state \<Rightarrow> 'w state" where
  "emit ev st = st\<lparr>trace := trace st @ [ev]\<rparr>"

definition log_Debug :: "string list \<Rightarrow> 'w state \<Rightarrow> 'w state" where
  "log_Debug args st = emit (Debug args) st"

definition log_Error :: "error \<Rightarrow> 'w state \<Rightarrow> 'w state" where
  "log_Error e st = emit (LogError e) st"

text \<open>
  Modelled from the spec: the helper \<^verbatim>\<open>logError\<close> is not among the sources. Spec 7: errors
  are logged and execution continues; a nil error logs nothing.
\<close>

definition logError :: "error option \<Rightarrow> 'w state \<Rightarrow> 'w state" where
  "logError err st = (case err of None \<Rightarrow> st | Some e \<Rightarrow> log_Error e st)"

text \<open>A call of an external capability: recorded, then run on the outside world.\<close>

definition extcall :: "event \<Rightarrow> ('w \<Rightarrow> 'a \<times> 'w) \<Rightarrow> 'w state \<Rightarrow> 'a \<times> 'w state" where
  "extcall ev f st =
     (case f (world st) of (r, w') \<Rightarrow> (r, st\<lparr>world := w', trace := trace st @ [ev]\<rparr>))"

text \<open>\<^verbatim>\<open>os.Unsetenv\<close>: when it succeeds the variable is gone from the process environment.\<close>

definition os_Unsetenv :: "'w ext \<Rightarrow> string \<Rightarrow> 'w state \<Rightarrow> error option \<times> 'w state" where
  "os_Unsetenv ext key st =
     (case extcall (Call_Unsetenv key) (Unsetenv ext key) st of (err, st1) \<Rightarrow>
        (err, if err = None then st1\<lparr>env := (env st1)(key := None)\<rparr> else st1))"

text \<open>\<^verbatim>\<open>os.Chdir\<close>: when it succeeds the process works in the new directory.\<close>

definition os_Chdir :: "'w ext \<Rightarrow> string \<Rightarrow> 'w state \<Rightarrow> error option \<times> 'w state" where
  "os_Chdir ext dir st =
     (case extcall (Call_Chdir dir) (Chdir ext dir) st of (err, st1) \<Rightarrow>
        (err, if err = None then st1\<lparr>cwd := dir\<rparr> else st1))"

definition writeModContentToModFile ::
  "'w ext \<Rightarrow> string \<Rightarrow> bytes \<Rightarrow> 'w state \<Rightarrow> error option \<times> 'w state" where
  "writeModContentToModFile ext path content st =
     extcall (Call_WriteFile path content) (WriteFile ext path content) st"

section \<open>The resolver\<close>

text \<open>Lines 69-79.\<close>

definition updateModContent ::
  "'w ext \<Rightarrow> string \<Rightarrow> PackageWithDeps \<Rightarrow> 'w state \<Rightarrow> error option \<times> PackageWithDeps \<times> 'w state" where
  "updateModContent ext path pwd st =
     (if path \<noteq> [] then
        (case extcall (Call_ReadFile path) (ReadFile ext path) st of ((content, err), st1) \<Rightarrow>
           (case err of
              Some e \<Rightarrow> (Some e, pwd, IncrementFailures st1)
            | None \<Rightarrow> (None, SetModContent content pwd, st1)))
      else (None, pwd, st))"

text \<open>Lines 92-100: some line of the manifest has a non-empty match.\<close>

definition PatternMatched :: "PackageWithDeps \<Rightarrow> Regexp \<Rightarrow> bool" where
  "PatternMatched pwd re = list_ex (\<lambda>line. re line \<noteq> []) (Split (modContent (Dependency pwd)) CHR 0x0A)"

text \<open>Lines 214-222.\<close>

definition getModPathInTemp :: "'w ext \<Rightarrow> string \<Rightarrow> PackageWithDeps \<Rightarrow> string" where
  "getModPathInTemp ext tempDir pwd =
     (let moduleInfo = Split (GetId pwd) CHR '':'';
          moduleInfo = (replaceExclamationMarkWithUpperCase ext (hd moduleInfo)) # tl moduleInfo;
          moduleId = Join_strings moduleInfo '':'';
          modulePath = Replace_first moduleId CHR '':'' ''@''
      in Join ext [tempDir, modulePath, ''go.mod''])"

text \<open>Lines 177-189.\<close>

definition getModPathAndUnzipDependency ::
  "'w ext \<Rightarrow> string \<Rightarrow> PackageWithDeps \<Rightarrow> 'w state \<Rightarrow> (string \<times> error option) \<times> 'w state" where
  "getModPathAndUnzipDependency ext path pwd st =
     (case os_Unsetenv ext GOPROXY st of (err, st1) \<Rightarrow>
        (case err of
           Some e \<Rightarrow> (([], Some e), st1)
         | None \<Rightarrow>
             (case extcall (Call_createDependencyInTemp (GetZipPath pwd))
                     (createDependencyInTemp ext (GetZipPath pwd)) st1 of
                ((tempDir, err2), st2) \<Rightarrow>
                  (case err2 of
                     Some e \<Rightarrow> (([], Some e), st2)
                   | None \<Rightarrow> ((getModPathInTemp ext tempDir pwd, None), st2)))))"

text \<open>Lines 164-175.\<close>

definition useCachedMod ::
  "'w ext \<Rightarrow> string \<Rightarrow> PackageWithDeps \<Rightarrow> 'w state \<Rightarrow> error option \<times> 'w state" where
  "useCachedMod ext path pwd st =
     (let st0 = log_Debug [''Using the mod in the cache since not empty:'', GetId pwd] st in
      case writeModContentToModFile ext path (GetModContent pwd) st0 of (err, st1) \<Rightarrow>
        (case os_Chdir ext (Dir ext path) (logError err st1) of (err2, st2) \<Rightarrow>
           (case err2 of
              Some e \<Rightarrow> (Some e, st2)
            | None \<Rightarrow>
                (case extcall (Call_removeGoSum path) (removeGoSum ext path) st2 of
                   (err3, st3) \<Rightarrow> (None, logError err3 st3)))))"

text \<open>Lines 191-208. \<^verbatim>\<open>strings.Split\<close> never returns an empty slice, so index 0 exists.\<close>

definition prepareAndRunInit ::
  "'w ext \<Rightarrow> string \<Rightarrow> PackageWithDeps \<Rightarrow> 'w state \<Rightarrow> error option \<times> 'w state" where
  "prepareAndRunInit ext pathToModFile pwd st =
     (let st0 = log_Debug [''Preparing to init'', pathToModFile] st in
      case os_Chdir ext (Dir ext pathToModFile) st0 of (err, st1) \<Rightarrow>
        (case err of
           Some e \<Rightarrow> (Some e, st1)
         | None \<Rightarrow>
             (case extcall (Call_IsFileExists pathToModFile) (IsFileExists ext pathToModFile) st1 of
                ((exists, err2), st2) \<Rightarrow>
                  (let st3 = logError err2 st2;
                       st4 = (if exists then
                                (case extcall (Call_Remove pathToModFile) (Remove ext pathToModFile) st3 of
                                   (err3, s) \<Rightarrow> logError err3 s)
                              else st3);
                       moduleId = GetId pwd;
                       moduleInfo = Split moduleId CHR '':'';
                       name = replaceExclamationMarkWithUpperCase ext (hd moduleInfo)
                   in extcall (Call_RunGoModInit name (GoModEditMessage pwd))
                        (RunGoModInit ext name (GoModEditMessage pwd)) st4))))"

text \<open>Lines 144-162: returns the manifest content as it stood before.\<close>

definition prepareUnpublishedDependency ::
  "'w ext \<Rightarrow> string \<Rightarrow> bytes \<Rightarrow> PackageWithDeps \<Rightarrow> 'w state \<Rightarrow> bytes \<times> PackageWithDeps \<times> 'w state" where
  "prepareUnpublishedDependency ext pathToModFile originalModContent0 pwd st =
     (case prepareAndRunInit ext pathToModFile pwd st of (err, st1) \<Rightarrow>
        (let st2 =
           (case err of
              None \<Rightarrow> st1
            | Some e \<Rightarrow>
                (case extcall (Call_IsFileExists pathToModFile) (IsFileExists ext pathToModFile)
                        (log_Error e st1) of
                   ((exists, err2), sa) \<Rightarrow>
                     (let sb = logError err2 sa in
                      if \<not> exists then
                        (case writeModContentToModFile ext pathToModFile (GetModContent pwd) sb of
                           (err3, sc) \<Rightarrow> logError err3 sc)
                      else sb)))
         in case extcall (Call_ReadFile pathToModFile) (ReadFile ext pathToModFile) st2 of
              ((content, err4), st3) \<Rightarrow>
                (GetModContent pwd, SetModContent content pwd, logError err4 st3)))"

text \<open>
  Lines 104-142. The result is \<open>(path, output, err)\<close> with the updated node and state; the
  graph \<open>output\<close> is the list of its keys in the order the loop of line 282 visits them.
\<close>

definition createDependencyAndPrepareMod ::
  "'w ext \<Rightarrow> PackageWithDeps \<Rightarrow> 'w state
    \<Rightarrow> (string \<times> string list \<times> error option) \<times> PackageWithDeps \<times> 'w state" where
  "createDependencyAndPrepareMod ext pwd st =
     (case getModPathAndUnzipDependency ext [] pwd st of ((path, err), st1) \<Rightarrow>
        (case err of
           Some e \<Rightarrow> ((path, [], Some e), pwd, st1)
         | None \<Rightarrow>
             (let pwd1 = set_shouldRevertToEmptyMod False pwd in
              case
                (if PatternMatched pwd1 (GetNotEmptyModRegex (regExp pwd1)) then
                   (case useCachedMod ext path pwd1 st1 of (err2, st2) \<Rightarrow> (err2, pwd1, st2))
                 else
                   (case
                      (if \<not> published_in st1 (GetId pwd1) then
                         prepareUnpublishedDependency ext path [] pwd1 st1
                       else
                         (case writeModContentToModFile ext path (GetModContent pwd1) st1 of
                            (err3, sa) \<Rightarrow> (GetModContent pwd1, pwd1, logError err3 sa)))
                    of (originalModContent1, pwd2, st2) \<Rightarrow>
                      if \<not> PatternMatched pwd2 (GetNotEmptyModRegex (regExp pwd2)) then
                        (case extcall (Call_populateModWithTidy path) (populateModWithTidy ext path)
                                (log_Debug [''The mod still empty after running 'go mod init' for:'',
                                   GetId pwd2] st2) of
                           (err4, st3) \<Rightarrow>
                             (None,
                              set_originalModContent originalModContent1
                                (set_shouldRevertToEmptyMod True pwd2),
                              logError err4 st3))
                      else
                        (None, pwd2,
                         log_Debug [''Project mod file after init is not empty'', GetId pwd2] st2)))
              of (errB, pwd3, st3) \<Rightarrow>
                (case errB of
                   Some e \<Rightarrow> ((path, [], Some e), pwd3, st3)
                 | None \<Rightarrow>
                     (case extcall Call_runGoModGraph (runGoModGraph ext) st3 of
                        ((output, err5), st4) \<Rightarrow> ((path, output, err5), pwd3, st4))))))"

text \<open>
  Lines 329-335. \<^verbatim>\<open>moduleAndVersion[1]\<close> panics when the ID has no colon; the panic comes
  before the file is written.
\<close>

definition goCacheModPath :: "'w ext \<Rightarrow> PackageWithDeps \<Rightarrow> string outcome" where
  "goCacheModPath ext pwd =
     (let moduleAndVersion = Split (GetId pwd) CHR '':'';
          pathToModule = Split (moduleAndVersion ! 0) CHR ''/''
      in if length moduleAndVersion < 2 then Panic
         else Normal (Join ext [cachePath pwd, Join_strings pathToModule (GetFileSeparator ext),
                                ''@v'', (moduleAndVersion ! 1) @ ''.mod'']))"

definition writeModContentToGoCache ::
  "'w ext \<Rightarrow> PackageWithDeps \<Rightarrow> 'w state \<Rightarrow> (error option \<times> 'w state) outcome" where
  "writeModContentToGoCache ext pwd st =
     bind (goCacheModPath ext pwd) (\<lambda>path.
       Normal (extcall (Call_WriteFile path (GetModContent pwd))
                 (WriteFile ext path (GetModContent pwd)) st))"

text \<open>
  Modelled from the spec: the method \<^verbatim>\<open>Package.prepareAndPublish\<close> is not among the sources.
  Spec 4.3 step 12 and 6: it submits the package content and its manifest to the artifact
  repository under the target repository name and returns the repository's error. Spec 7
  and 8: a repository error is counted as a failure in the shared cache, and the counters
  tell the outcome of each node, so a successful publish is counted as a success. It does
  not touch the map of published flags.
\<close>

definition Package_prepareAndPublish ::
  "'w ext \<Rightarrow> string \<Rightarrow> Package \<Rightarrow> 'w state \<Rightarrow> error option \<times> 'w state" where
  "Package_prepareAndPublish ext targetRepo pkg st =
     (case extcall (Call_Publish targetRepo pkg) (publish ext targetRepo pkg) st of (err, st1) \<Rightarrow>
        (case err of
           Some e \<Rightarrow> (Some e, IncrementFailures st1)
         | None \<Rightarrow> (None, IncrementSuccess st1)))"

text \<open>Lines 274-278.\<close>

definition prepareAndPublish ::
  "'w ext \<Rightarrow> string \<Rightarrow> PackageWithDeps \<Rightarrow> 'w state \<Rightarrow> error option \<times> 'w state" where
  "prepareAndPublish ext targetRepo pwd st =
     (case Package_prepareAndPublish ext targetRepo (Dependency pwd) st of (err, st1) \<Rightarrow>
        (err, map_store (GetId pwd) True st1))"

text \<open>
  Modelled from the spec: \<^verbatim>\<open>createDependency\<close> and \<^verbatim>\<open>downloadAndCreateDependency\<close> are not
  among the sources. Spec 3 and 4.4: the package they materialise for \<open>(path, version)\<close> has
  the composite key \<open>path:version\<close> as its ID.
\<close>

definition new_Package :: "string \<Rightarrow> string \<Rightarrow> bytes \<times> string \<Rightarrow> Package" where
  "new_Package name version cz =
     \<lparr>id_pkg = name @ '':'' @ version, modContent = fst cz, zipPath = snd cz\<rparr>"

text \<open>
  Lines 283-324, the body of the loop over the graph for one edge. The accumulator is the
  local slice \<^verbatim>\<open>dependencies\<close> and the state.
\<close>

definition transitiveStep ::
  "'w ext \<Rightarrow> string \<Rightarrow> PackageWithDeps \<Rightarrow> string \<Rightarrow> PackageWithDeps list \<times> 'w state
    \<Rightarrow> PackageWithDeps list \<times> 'w state" where
  "transitiveStep ext targetRepo pwd transitiveDependency acc =
     (case acc of (dependencies, st) \<Rightarrow>
      (let module = Split transitiveDependency CHR ''@'' in
       if length module = 2 then
         (let name = getDependencyName ext (module ! 0);
              version = module ! 1
          in case GetMap (cache st) (name @ '':'' @ version) of
               Some b \<Rightarrow>
                 (dependencies,
                  log_Debug [''Dependency'', transitiveDependency, ''has been previously added.''] st)
             | None \<Rightarrow>
                 (case extcall (Call_createDependency (cachePath pwd) name version)
                         (createDependency ext (cachePath pwd) name version) st of
                    ((dep, err), st1) \<Rightarrow>
                      (let st2 = logError err st1 in
                       if err \<noteq> None then (dependencies, st2)
                       else
                         (case extcall (Call_shouldDownloadFromArtifactory (module ! 0) version targetRepo)
                                 (shouldDownloadFromArtifactory ext (module ! 0) version targetRepo) st2 of
                            ((downloadedFromArtifactory, err2), st3) \<Rightarrow>
                              (let st4 = logError err2 st3 in
                               if err2 \<noteq> None then (dependencies, st4)
                               else
                                 (case
                                    (if dep = None then
                                       (case extcall
                                               (Call_downloadAndCreateDependency (cachePath pwd) name version
                                                  transitiveDependency targetRepo downloadedFromArtifactory)
                                               (downloadAndCreateDependency ext (cachePath pwd) name version
                                                  transitiveDependency targetRepo downloadedFromArtifactory)
                                               st4 of
                                          ((dep2, err3), sa) \<Rightarrow> (dep2, err3, logError err3 sa))
                                     else (dep, None, st4))
                                  of (dep3, err3, st5) \<Rightarrow>
                                    if err3 \<noteq> None then (dependencies, st5)
                                    else
                                      (case dep3 of
                                         None \<Rightarrow> (dependencies, st5)
                                       | Some cz \<Rightarrow>
                                           (let d = new_Package name version cz;
                                                st6 = log_Debug [''Dependency '' @ GetId pwd
                                                        @ '' has transitive dependency '' @ id_pkg d] st5;
                                                depsWithTrans =
                                                  PackageWithDeps d [] (regExp pwd) False False
                                                    (TidyEnum pwd) (cachePath pwd) (GoModEditMessage pwd) []
                                            in (dependencies @ [depsWithTrans],
                                                map_store (name @ '':'' @ version)
                                                  downloadedFromArtifactory st6)))))))))
       else (dependencies, st)))"

text \<open>Lines 280-327.\<close>

definition setTransitiveDependencies ::
  "'w ext \<Rightarrow> string \<Rightarrow> string list \<Rightarrow> PackageWithDeps \<Rightarrow> 'w state \<Rightarrow> PackageWithDeps \<times> 'w state" where
  "setTransitiveDependencies ext targetRepo graphDependencies pwd st =
     (case fold (transitiveStep ext targetRepo pwd) graphDependencies ([], st) of
        (dependencies, st1) \<Rightarrow> (set_transitiveDependencies dependencies pwd, st1))"

text \<open>
  Lines 340-349, the loop over the children. \<open>rec\<close> is the call of
  \<^verbatim>\<open>PopulateModAndPublish\<close> on a child: the loop works on a copy of the child and drops both the
  copy and the returned error.
\<close>

fun populateLoop ::
  "(PackageWithDeps \<Rightarrow> 'w state \<Rightarrow> (error option \<times> PackageWithDeps \<times> 'w state) outcome)
    \<Rightarrow> PackageWithDeps list \<Rightarrow> 'w state \<Rightarrow> 'w state outcome" where
  "populateLoop rec [] st = Normal st"
| "populateLoop rec (transitiveDep # rest) st =
     (if \<not> published_in st (GetId transitiveDep) then
        bind (rec transitiveDep
                (log_Debug [''Starting to work on transitive dependency:'', GetId transitiveDep] st))
          (\<lambda>(err, pwd', st'). populateLoop rec rest st')
      else
        populateLoop rec rest
          (log_Debug [''The dependency'', GetId transitiveDep, ''was already handled'']
             (IncrementSuccess st)))"

text \<open>Lines 338-350.\<close>

definition populateTransitive ::
  "(PackageWithDeps \<Rightarrow> 'w state \<Rightarrow> (error option \<times> PackageWithDeps \<times> 'w state) outcome)
    \<Rightarrow> PackageWithDeps \<Rightarrow> 'w state \<Rightarrow> 'w state outcome" where
  "populateTransitive rec pwd st =
     populateLoop rec (transitiveDependencies pwd)
       (IncrementTotal (length (transitiveDependencies pwd)) st)"

text \<open>Lines 226-233: the expansion of the graph, with the sum file moved aside.\<close>

definition expandGraph ::
  "'w ext \<Rightarrow> string \<Rightarrow> string \<Rightarrow> string list \<Rightarrow> PackageWithDeps \<Rightarrow> 'w state
    \<Rightarrow> PackageWithDeps \<times> 'w state" where
  "expandGraph ext pathToModFile targetRepo graphDependencies pwd st =
     (if length graphDependencies > 0 then
        (case extcall (Call_GetSumContentAndRemove (Dir ext pathToModFile))
                (GetSumContentAndRemove ext (Dir ext pathToModFile)) st of
           ((sumFileContent, sumFileStat, err), st1) \<Rightarrow>
             (case setTransitiveDependencies ext targetRepo graphDependencies pwd (logError err st1) of
                (pwd1, st2) \<Rightarrow>
                  (pwd1,
                   if length sumFileContent > 0 \<and> sumFileStat then
                     snd (extcall (Call_RestoreSumFile (Dir ext pathToModFile) sumFileContent)
                            (RestoreSumFile ext (Dir ext pathToModFile) sumFileContent) st2)
                   else st2)))
      else (pwd, st))"

text \<open>Lines 246-256: back to the manifest as it stood before tidy.\<close>

definition revertedModContent :: "PackageWithDeps \<Rightarrow> bytes" where
  "revertedModContent pwd =
     (if GetGeneratedBy (regExp pwd) (originalModContent pwd) = []
      then GoModEditMessage pwd @ [CHR 0x0A, CHR 0x0A] @ originalModContent pwd
      else originalModContent pwd)"

definition revertToOriginalMod ::
  "'w ext \<Rightarrow> string \<Rightarrow> PackageWithDeps \<Rightarrow> 'w state \<Rightarrow> (PackageWithDeps \<times> 'w state) outcome" where
  "revertToOriginalMod ext pathToModFile pwd st =
     (let st0 = log_Debug [''Reverting to the original mod of'', GetId pwd] st;
          pwd1 = set_originalModContent (revertedModContent pwd) pwd
      in case writeModContentToModFile ext pathToModFile (originalModContent pwd1) st0 of
           (err0, st1) \<Rightarrow>
             (let pwd2 = SetModContent (originalModContent pwd1) pwd1 in
              bind (writeModContentToGoCache ext pwd2 st1) (\<lambda>(err, st2).
                Normal (pwd2, logError err st2))))"

text \<open>Lines 263-267: the temporary workspace is removed; a failure is logged.\<close>

definition removeWorkspace :: "'w ext \<Rightarrow> string \<Rightarrow> 'w state \<Rightarrow> 'w state" where
  "removeWorkspace ext pathToModFile st =
     (case extcall (Call_RemoveAll (Dir ext pathToModFile)) (RemoveAll ext (Dir ext pathToModFile)) st of
        (err, st1) \<Rightarrow>
          (case err of
             None \<Rightarrow> st1
           | Some e \<Rightarrow>
               log_Error (''Removing the following directory '' @ e
                  @ '' has encountred an error: '' @ Dir ext pathToModFile) st1))"

text \<open>Lines 236-239: a manifest that is populated or bears the edit marker goes to the local
  module cache before the children are resolved.\<close>

definition persistToGoCache ::
  "'w ext \<Rightarrow> bool \<Rightarrow> PackageWithDeps \<Rightarrow> 'w state \<Rightarrow> 'w state outcome" where
  "persistToGoCache ext published pwd st =
     (if \<not> published \<and>
         (PatternMatched pwd (GetNotEmptyModRegex (regExp pwd)) \<or>
          PatternMatched pwd (GetGeneratedBy (regExp pwd)))
      then bind (writeModContentToGoCache ext pwd st) (\<lambda>(err, s). Normal (logError err s))
      else Normal st)"

text \<open>Lines 257-261.\<close>

definition publishUnlessPublished ::
  "'w ext \<Rightarrow> string \<Rightarrow> bool \<Rightarrow> PackageWithDeps \<Rightarrow> 'w state \<Rightarrow> 'w state" where
  "publishUnlessPublished ext targetRepo published pwd st =
     (if \<not> published then
        (case prepareAndPublish ext targetRepo pwd st of (err, s) \<Rightarrow> logError err s)
      else st)"

text \<open>Lines 224-270.\<close>

definition publishDependencyAndPopulateTransitive ::
  "(PackageWithDeps \<Rightarrow> 'w state \<Rightarrow> (error option \<times> PackageWithDeps \<times> 'w state) outcome)
    \<Rightarrow> 'w ext \<Rightarrow> string \<Rightarrow> string \<Rightarrow> string list \<Rightarrow> PackageWithDeps \<Rightarrow> 'w state
    \<Rightarrow> (error option \<times> PackageWithDeps \<times> 'w state) outcome" where
  "publishDependencyAndPopulateTransitive rec ext pathToModFile targetRepo graphDependencies pwd st =
     (case expandGraph ext pathToModFile targetRepo graphDependencies pwd st of (pwd1, st1) \<Rightarrow>
      (let published = published_in st1 (GetId pwd1) in
       bind (persistToGoCache ext published pwd1 st1) (\<lambda>st2.
       bind (if transitiveDependencies pwd1 \<noteq> [] then populateTransitive rec pwd1 st2
             else Normal st2) (\<lambda>st3.
       bind (if \<not> published \<and> shouldRevertToEmptyMod pwd1
             then revertToOriginalMod ext pathToModFile pwd1 st3
             else Normal (pwd1, st3)) (\<lambda>(pwd2, st4).
       Normal (None, pwd2,
               removeWorkspace ext pathToModFile
                 (publishUnlessPublished ext targetRepo published pwd2 st4)))))))"

text \<open>
  Lines 49-55: for a package already marked published the manifest is fetched again from
  the artifact repository. \<^verbatim>\<open>moduleAndVersion[1]\<close> in line 52 panics when the ID has no colon.
\<close>

definition overwriteModFromArtifactory ::
  "'w ext \<Rightarrow> string \<Rightarrow> PackageWithDeps \<Rightarrow> 'w state \<Rightarrow> (PackageWithDeps \<times> 'w state) outcome" where
  "overwriteModFromArtifactory ext targetRepo pwd st =
     (let sa = log_Debug [''Overwriting the mod file in the cache from the one from Artifactory'',
                          GetId pwd] st;
          moduleAndVersion = Split (GetId pwd) CHR '':''
      in if length moduleAndVersion < 2 then Panic
         else
           (case extcall
                   (Call_downloadModFileFromArtifactoryToLocalCache (cachePath pwd) targetRepo
                      (moduleAndVersion ! 0) (moduleAndVersion ! 1))
                   (downloadModFileFromArtifactoryToLocalCache ext (cachePath pwd) targetRepo
                      (moduleAndVersion ! 0) (moduleAndVersion ! 1)) sa of
              (path, sb) \<Rightarrow>
                (case updateModContent ext path pwd sb of
                   (err, pwd', sc) \<Rightarrow> Normal (pwd', logError err sc))))"

text \<open>Lines 57-65: everything after the refresh.\<close>

definition prepareAndPublishNode ::
  "(PackageWithDeps \<Rightarrow> 'w state \<Rightarrow> (error option \<times> PackageWithDeps \<times> 'w state) outcome)
    \<Rightarrow> 'w ext \<Rightarrow> string \<Rightarrow> PackageWithDeps \<Rightarrow> 'w state
    \<Rightarrow> (error option \<times> PackageWithDeps \<times> 'w state) outcome" where
  "prepareAndPublishNode rec ext targetRepo pwd st =
     (let st2 = log_Debug [''Dependency '' @ GetId pwd @ '' mod file is empty: ''
                    @ (if \<not> PatternMatched pwd (GetNotEmptyModRegex (regExp pwd))
                       then ''true'' else ''false'')] st
      in case createDependencyAndPrepareMod ext pwd st2 of
           ((path, output, err), pwd2, st3) \<Rightarrow>
             bind (publishDependencyAndPopulateTransitive rec ext path targetRepo output pwd2
                     (logError err st3))
               (\<lambda>(err', pwd3, st4). Normal (None, pwd3, st4)))"

text \<open>Lines 43-66, with \<open>rec\<close> for the calls on the children.\<close>

definition PopulateModAndPublish_body ::
  "(PackageWithDeps \<Rightarrow> 'w state \<Rightarrow> (error option \<times> PackageWithDeps \<times> 'w state) outcome)
    \<Rightarrow> 'w ext \<Rightarrow> string \<Rightarrow> PackageWithDeps \<Rightarrow> 'w state
    \<Rightarrow> (error option \<times> PackageWithDeps \<times> 'w state) outcome" where
  "PopulateModAndPublish_body rec ext targetRepo pwd st =
     (let st0 = log_Debug [''Starting to work on'', GetId pwd] st;
          published = published_in st0 (GetId pwd)
      in
      bind (if published then overwriteModFromArtifactory ext targetRepo pwd st0
            else Normal (pwd, st0))
        (\<lambda>(pwd1, st1). prepareAndPublishNode rec ext targetRepo pwd1 st1))"

text \<open>
  \<^verbatim>\<open>PopulateModAndPublish\<close> with a bound on the depth of the recursion into children: the
  children of a node run with one less.
\<close>

primrec PopulateModAndPublish ::
  "nat \<Rightarrow> 'w ext \<Rightarrow> string \<Rightarrow> PackageWithDeps \<Rightarrow> 'w state
    \<Rightarrow> (error option \<times> PackageWithDeps \<times> 'w state) outcome" where
  "PopulateModAndPublish 0 ext targetRepo pwd st = OutOfFuel"
| "PopulateModAndPublish (Suc n) ext targetRepo pwd st =
     PopulateModAndPublish_body (PopulateModAndPublish n ext targetRepo) ext targetRepo pwd st"

section \<open>Notions used in the properties\<close>

text \<open>
  How the shared state may change between two moments of a run: a flag that is true stays
  true, an entry that exists stays, the counters do not decrease, and an unset
  \<^verbatim>\<open>GOPROXY\<close> stays unset.
\<close>

definition evolves :: "'w state \<Rightarrow> 'w state \<Rightarrow> bool" where
  "evolves st st' \<longleftrightarrow>
     (\<forall>k. GetMap (cache st) k = Some True \<longrightarrow> GetMap (cache st') k = Some True) \<and>
     (\<forall>k. GetMap (cache st) k \<noteq> None \<longrightarrow> GetMap (cache st') k \<noteq> None) \<and>
     total (cache st) \<le> total (cache st') \<and>
     successes (cache st) \<le> successes (cache st') \<and>
     failures (cache st) \<le> failures (cache st') \<and>
     (env st GOPROXY = None \<longrightarrow> env st' GOPROXY = None)"

definition rec_evolves ::
  "(PackageWithDeps \<Rightarrow> 'w state \<Rightarrow> (error option \<times> PackageWithDeps \<times> 'w state) outcome) \<Rightarrow> bool" where
  "rec_evolves rec \<longleftrightarrow> (\<forall>c s e p s'. rec c s = Normal (e, p, s') \<longrightarrow> evolves s s')"

text \<open>An edge of the graph is well formed when it splits at \<^verbatim>\<open>@\<close> into exactly two parts.\<close>

definition wellformed_edge :: "string \<Rightarrow> bool" where
  "wellformed_edge e \<longleftrightarrow> length (Split e CHR ''@'') = 2"


text \<open>The external calls among the events: everything but the log lines.\<close>

fun is_log :: "event \<Rightarrow> bool" where
  "is_log (Debug args) = True"
| "is_log (LogError e) = True"
| "is_log ev = False"

definition calls :: "event list \<Rightarrow> event list" where
  "calls t = filter (\<lambda>ev. \<not> is_log ev) t"


text \<open>The cache key of the child that an edge \<open>path@version\<close> stands for (line 287).\<close>

definition child_key :: "'w ext \<Rightarrow> string \<Rightarrow> string" where
  "child_key ext e = getDependencyName ext (Split e CHR ''@'' ! 0) @ '':'' @ Split e CHR ''@'' ! 1"

text \<open>The answer of the existence probe of line 297 for an edge, asked in the world that
  \<^verbatim>\<open>createDependency\<close> leaves behind.\<close>

definition existence_probe :: "'w ext \<Rightarrow> string \<Rightarrow> PackageWithDeps \<Rightarrow> string \<Rightarrow> 'w state \<Rightarrow> bool" where
  "existence_probe ext targetRepo pwd e st =
     (let module = Split e CHR ''@'';
          name = getDependencyName ext (module ! 0);
          w1 = snd (createDependency ext (cachePath pwd) name (module ! 1) (world st))
      in fst (fst (shouldDownloadFromArtifactory ext (module ! 0) (module ! 1) targetRepo w1)))"

text \<open>What a child takes over from its parent (lines 313-317).\<close>

definition shares_with :: "PackageWithDeps \<Rightarrow> PackageWithDeps \<Rightarrow> bool" where
  "shares_with c pwd \<longleftrightarrow>
     cachePath c = cachePath pwd \<and> regExp c = regExp pwd \<and> TidyEnum c = TidyEnum pwd \<and>
     GoModEditMessage c = GoModEditMessage pwd"

text \<open>A resolver that is asked only about children whose ID the cache has recorded; for any
  other child \<open>alt\<close> answers.\<close>

definition recorded_only ::
  "(PackageWithDeps \<Rightarrow> 'w state \<Rightarrow> 'a) \<Rightarrow> (PackageWithDeps \<Rightarrow> 'w state \<Rightarrow> 'a)
    \<Rightarrow> PackageWithDeps \<Rightarrow> 'w state \<Rightarrow> 'a" where
  "recorded_only alt rec c s = (if GetMap (cache s) (GetId c) \<noteq> None then rec c s else alt c s)"

text \<open>The children collected so far by the expansion: new to the cache at its start, recorded
  by now, sharing the parent's settings, without children of their own.\<close>

definition fresh_children :: "PackageWithDeps \<Rightarrow> 'w state \<Rightarrow> PackageWithDeps list \<times> 'w state \<Rightarrow> bool" where
  "fresh_children pwd st acc \<longleftrightarrow>
     (\<forall>c\<in>set (fst acc).
        GetMap (cache st) (GetId c) = None \<and> GetMap (cache (snd acc)) (GetId c) \<noteq> None \<and>
        shares_with c pwd \<and> transitiveDependencies c = []) \<and>
     (\<forall>k. GetMap (cache st) k \<noteq> None \<longrightarrow> GetMap (cache (snd acc)) k \<noteq> None)"

text \<open>A package ID with a version: it splits at \<^verbatim>\<open>:\<close> into at least two parts.\<close>

definition has_version :: "string \<Rightarrow> bool" where
  "has_version i \<longleftrightarrow> 2 \<le> length (Split i CHR '':'')"

text \<open>How many of the keys \<open>K\<close> the cache has not seen yet.\<close>

definition remaining :: "string set \<Rightarrow> 'w state \<Rightarrow> nat" where
  "remaining K st = card (K - dom (GetMap (cache st)))"




text \<open>The nodes whose outcome the counters have settled: successes and failures together.\<close>

definition settled :: "'w state \<Rightarrow> nat" where
  "settled st = successes (cache st) + failures (cache st)"

text \<open>A resolver under which a child that is recorded and not published, and has no children
  yet, settles exactly one node more than it adds to the total.\<close>

definition rec_balanced ::
  "(PackageWithDeps \<Rightarrow> 'w state \<Rightarrow> (error option \<times> PackageWithDeps \<times> 'w state) outcome) \<Rightarrow> bool" where
  "rec_balanced rec \<longleftrightarrow>
     (\<forall>c s e p s'. GetMap (cache s) (GetId c) = Some False \<and> transitiveDependencies c = [] \<and>
        rec c s = Normal (e, p, s') \<longrightarrow>
        settled s' + total (cache s) = settled s + total (cache s') + 1)"

text \<open>The log line of line 347: a child skipped because it was already published.\<close>

fun is_skip :: "event \<Rightarrow> bool" where
  "is_skip (Debug [a, i, b]) = (a = ''The dependency'' \<and> b = ''was already handled'')"
| "is_skip ev = False"

definition skipped :: "event list \<Rightarrow> nat" where
  "skipped t = length (filter is_skip t)"

text \<open>Between two moments of a run, every skip has been counted as a success.\<close>

definition skips_counted :: "'w state \<Rightarrow> 'w state \<Rightarrow> bool" where
  "skips_counted st st' \<longleftrightarrow>
     skipped (trace st') + successes (cache st) \<le> successes (cache st') + skipped (trace st)"

definition rec_skips ::
  "(PackageWithDeps \<Rightarrow> 'w state \<Rightarrow> (error option \<times> PackageWithDeps \<times> 'w state) outcome) \<Rightarrow> bool" where
  "rec_skips rec \<longleftrightarrow> (\<forall>c s e p s'. rec c s = Normal (e, p, s') \<longrightarrow> skips_counted s s')"

text \<open>The counters of a run that returned, with the number of children it skipped.\<close>

definition result_counts ::
  "(error option \<times> PackageWithDeps \<times> 'w state) outcome \<Rightarrow> (nat \<times> nat \<times> nat \<times> nat) option" where
  "result_counts r =
     (case r of
        Normal (e, p, s) \<Rightarrow>
          Some (total (cache s), successes (cache s), failures (cache s), skipped (trace s))
      | _ \<Rightarrow> None)"

section \<open>An example world\<close>

text \<open>
  A small outside world to run the resolver in: the world is the number of graph
  computations so far; the first one finds one dependency and a malformed edge, later ones
  find nothing. Every other capability succeeds.
\<close>

definition re_notEmpty :: Regexp where
  "re_notEmpty line = (if take 7 line = ''require'' then take 7 line else [])"

definition re_generatedBy :: Regexp where
  "re_generatedBy s = (if take 12 s = ''// Generated'' then take 12 s else [])"

definition ext_ok :: "nat ext" where
  "ext_ok = \<lparr>
    downloadModFileFromArtifactoryToLocalCache = (\<lambda>c r m v w. ([], w)),
    ReadFile = (\<lambda>p w. (([], None), w)),
    WriteFile = (\<lambda>p c w. (None, w)),
    Unsetenv = (\<lambda>k w. (None, w)),
    Chdir = (\<lambda>d w. (None, w)),
    createDependencyInTemp = (\<lambda>z w. ((''/tmp'', None), w)),
    IsFileExists = (\<lambda>p w. ((False, None), w)),
    Remove = (\<lambda>p w. (None, w)),
    RunGoModInit = (\<lambda>n m w. (None, w)),
    populateModWithTidy = (\<lambda>p w. (None, w)),
    runGoModGraph =
      (\<lambda>w. ((if w = 0 then [''example.com/bar@v2.0.0'', ''badedge''] else [], None), Suc w)),
    removeGoSum = (\<lambda>p w. (None, w)),
    GetSumContentAndRemove = (\<lambda>d w. (([], False, None), w)),
    RestoreSumFile = (\<lambda>d c w. ((), w)),
    createDependency = (\<lambda>c n v w. ((Some (''require x'', ''/zip/bar''), None), w)),
    shouldDownloadFromArtifactory = (\<lambda>m v r w. ((False, None), w)),
    downloadAndCreateDependency = (\<lambda>c n v t r b w. ((None, None), w)),
    publish = (\<lambda>r p w. (None, w)),
    RemoveAll = (\<lambda>d w. (None, w)),
    getDependencyName = (\<lambda>s. s),
    replaceExclamationMarkWithUpperCase = (\<lambda>s. s),
    Join = (\<lambda>ps. Join_strings ps ''/''),
    Dir = (\<lambda>p. p @ ''/..''),
    GetFileSeparator = ''/''
  \<rparr>"

text \<open>The same world with a repository that refuses every publish.\<close>

definition ext_publish_fails :: "nat ext" where
  "ext_publish_fails = ext_ok\<lparr>publish := (\<lambda>r p w. (Some ''503 Service Unavailable'', w))\<rparr>"

definition st_fresh :: "nat state" where
  "st_fresh = \<lparr>cache = \<lparr>GetMap = Map.empty, total = 0, successes = 0, failures = 0\<rparr>,
          env = [''GOPROXY'' \<mapsto> ''direct''], cwd = ''/home'', world = 0, trace = []\<rparr>"

text \<open>Scenario 2 of the spec: \<^verbatim>\<open>example.com/foo:v1.0.0\<close> with an empty manifest.\<close>

definition root_foo :: PackageWithDeps where
  "root_foo = PackageWithDeps
     \<lparr>id_pkg = ''example.com/foo:v1.0.0'', modContent = [], zipPath = ''/zip/foo''\<rparr>
     [] (RegExp re_notEmpty re_generatedBy) False False 0 ''/cache'' ''// Generated by tool'' []"

text \<open>A state in which an unrelated package is already marked published.\<close>

definition st_seen :: "nat state" where
  "st_seen = st_fresh\<lparr>cache := (cache st_fresh)\<lparr>GetMap := [''old.org/lib:v0.1.0'' \<mapsto> True]\<rparr>\<rparr>"

text \<open>A repository whose stored manifest cannot be read back, and a state in which the root is
  already marked published.\<close>

definition ext_refresh_fails :: "nat ext" where
  "ext_refresh_fails = ext_ok\<lparr>
     downloadModFileFromArtifactoryToLocalCache := (\<lambda>c r m v w. (''/cache/dl.mod'', w)),
     ReadFile := (\<lambda>p w. (([], Some ''open /cache/dl.mod: no such file''), w))\<rparr>"

definition st_published :: "nat state" where
  "st_published = st_fresh\<lparr>cache := (cache st_fresh)\<lparr>GetMap := [''example.com/foo:v1.0.0'' \<mapsto> True]\<rparr>\<rparr>"

text \<open>A node that has taken the tidy branch, with its manifest as it stood before.\<close>

definition pwd_tidied :: PackageWithDeps where
  "pwd_tidied = set_originalModContent ''module example.com/foo''
                  (set_shouldRevertToEmptyMod True root_foo)"

text \<open>A repository that already has every package the probe asks for.\<close>

definition ext_in_repo :: "nat ext" where
  "ext_in_repo = ext_ok\<lparr>shouldDownloadFromArtifactory := (\<lambda>m v r w. ((True, None), w))\<rparr>"

text \<open>A package whose ID has no version part, and a state in which it is marked published.\<close>

definition root_noversion :: PackageWithDeps where
  "root_noversion = PackageWithDeps
     \<lparr>id_pkg = ''example.com/foo'', modContent = [], zipPath = ''/zip/foo''\<rparr>
     [] (RegExp re_notEmpty re_generatedBy) False False 0 ''/cache'' ''// Generated by tool'' []"

definition st_noversion_published :: "nat state" where
  "st_noversion_published = st_fresh\<lparr>cache := (cache st_fresh)\<lparr>GetMap := [''example.com/foo'' \<mapsto> True]\<rparr>\<rparr>"

section \<open>The shared state only moves forward\<close>

lemmas model_defs = GetId_def GetModContent_def GetZipPath_def SetModContent_def
  IncrementTotal_def IncrementSuccess_def IncrementFailures_def published_in_def map_store_def
  emit_def log_Debug_def log_Error_def logError_def extcall_def os_Unsetenv_def os_Chdir_def
  writeModContentToModFile_def updateModContent_def PatternMatched_def getModPathInTemp_def
  getModPathAndUnzipDependency_def useCachedMod_def prepareAndRunInit_def
  prepareUnpublishedDependency_def createDependencyAndPrepareMod_def goCacheModPath_def
  writeModContentToGoCache_def Package_prepareAndPublish_def prepareAndPublish_def
  new_Package_def transitiveStep_def setTransitiveDependencies_def populateTransitive_def
  expandGraph_def revertedModContent_def revertToOriginalMod_def removeWorkspace_def
  publishDependencyAndPopulateTransitive_def persistToGoCache_def publishUnlessPublished_def
  overwriteModFromArtifactory_def
  prepareAndPublishNode_def PopulateModAndPublish_body_def GOPROXY_def

lemmas example_defs = ext_ok_def ext_publish_fails_def st_fresh_def root_foo_def re_notEmpty_def
  re_generatedBy_def st_seen_def ext_refresh_fails_def st_published_def pwd_tidied_def ext_in_repo_def
  root_noversion_def st_noversion_published_def

lemma evolves_refl [simp]: "evolves st st"
  by (simp add: evolves_def)

lemma evolves_trans: "evolves a b \<Longrightarrow> evolves b c \<Longrightarrow> evolves a c"
  unfolding evolves_def by (meson le_trans)

lemma evolves_emit [simp]: "evolves a (emit ev st) = evolves a st"
  by (simp add: evolves_def emit_def)

lemma evolves_log_Debug [simp]: "evolves a (log_Debug args st) = evolves a st"
  by (simp add: log_Debug_def)

lemma evolves_log_Error [simp]: "evolves a (log_Error e st) = evolves a st"
  by (simp add: log_Error_def)

lemma evolves_logError [simp]: "evolves a (logError err st) = evolves a st"
  by (simp add: logError_def split: option.split)

lemma evolves_extcall [simp]: "evolves a (snd (extcall ev f st)) = evolves a st"
  by (simp add: evolves_def extcall_def split: prod.split)

lemma evolves_extcall_eq: "extcall ev f st = (r, st') \<Longrightarrow> evolves a st' = evolves a st"
  using evolves_extcall [of a ev f st] by simp

lemma evolves_IncrementTotal [simp]: "evolves a st \<Longrightarrow> evolves a (IncrementTotal n st)"
  by (simp add: evolves_def IncrementTotal_def)

lemma evolves_IncrementSuccess [simp]: "evolves a st \<Longrightarrow> evolves a (IncrementSuccess st)"
  by (simp add: evolves_def IncrementSuccess_def)

lemma evolves_IncrementFailures [simp]: "evolves a st \<Longrightarrow> evolves a (IncrementFailures st)"
  by (simp add: evolves_def IncrementFailures_def)

lemma evolves_mark [simp]: "evolves a st \<Longrightarrow> evolves a (map_store k True st)"
  by (auto simp add: evolves_def map_store_def)

lemma evolves_fresh: "evolves a st \<Longrightarrow> GetMap (cache st) k = None \<Longrightarrow> evolves a (map_store k b st)"
  by (auto simp add: evolves_def map_store_def)

lemma evolves_os_Unsetenv [simp]: "evolves a st \<Longrightarrow> evolves a (snd (os_Unsetenv ext key st))"
  by (auto simp add: evolves_def os_Unsetenv_def extcall_def split: prod.split)

lemma evolves_os_Chdir [simp]: "evolves a (snd (os_Chdir ext dir st)) = evolves a st"
  by (auto simp add: evolves_def os_Chdir_def extcall_def split: prod.split)

lemma evolves_writeModContentToModFile [simp]:
  "evolves a (snd (writeModContentToModFile ext path c st)) = evolves a st"
  by (simp add: writeModContentToModFile_def)

lemma evolves_updateModContent [simp]:
  "evolves a st \<Longrightarrow> evolves a (snd (snd (updateModContent ext path pwd st)))"
  by (simp add: updateModContent_def case_prod_beta split: option.split)

lemma evolves_getModPathAndUnzipDependency [simp]:
  "evolves a st \<Longrightarrow> evolves a (snd (getModPathAndUnzipDependency ext path pwd st))"
  by (simp add: getModPathAndUnzipDependency_def case_prod_beta split: option.split)

lemma evolves_useCachedMod [simp]:
  "evolves a (snd (useCachedMod ext path pwd st)) = evolves a st"
  by (simp add: useCachedMod_def case_prod_beta Let_def split: option.split)

lemma evolves_prepareAndRunInit [simp]:
  "evolves a (snd (prepareAndRunInit ext path pwd st)) = evolves a st"
  by (simp add: prepareAndRunInit_def case_prod_beta Let_def split: option.split)

lemma evolves_prepareUnpublishedDependency [simp]:
  "evolves a (snd (snd (prepareUnpublishedDependency ext path o0 pwd st))) = evolves a st"
  by (simp add: prepareUnpublishedDependency_def case_prod_beta Let_def split: option.split)

lemma evolves_createDependencyAndPrepareMod [simp]:
  "evolves a st \<Longrightarrow> evolves a (snd (snd (createDependencyAndPrepareMod ext pwd st)))"
  by (simp add: createDependencyAndPrepareMod_def case_prod_beta Let_def split: option.split)


lemma bind_eq_Normal: "bind m f = Normal y \<longleftrightarrow> (\<exists>x. m = Normal x \<and> f x = Normal y)"
  by (cases m) auto

lemma bind_eq_Panic: "bind m f = Panic \<longleftrightarrow> m = Panic \<or> (\<exists>x. m = Normal x \<and> f x = Panic)"
  by (cases m) auto

lemma bind_eq_OutOfFuel:
  "bind m f = OutOfFuel \<longleftrightarrow> m = OutOfFuel \<or> (\<exists>x. m = Normal x \<and> f x = OutOfFuel)"
  by (cases m) auto

lemma evolves_writeModContentToGoCache:
  "writeModContentToGoCache ext pwd st = Normal (err, st') \<Longrightarrow> evolves a st' = evolves a st"
  by (auto simp add: writeModContentToGoCache_def bind_eq_Normal evolves_extcall_eq)

lemma evolves_Package_prepareAndPublish [simp]:
  "evolves a st \<Longrightarrow> evolves a (snd (Package_prepareAndPublish ext targetRepo pkg st))"
  by (simp add: Package_prepareAndPublish_def case_prod_beta split: option.split)

lemma evolves_prepareAndPublish [simp]:
  "evolves a st \<Longrightarrow> evolves a (snd (prepareAndPublish ext targetRepo pwd st))"
  by (simp add: prepareAndPublish_def case_prod_beta)

lemma cache_emit [simp]: "cache (emit ev st) = cache st"
  by (simp add: emit_def)

lemma cache_log_Debug [simp]: "cache (log_Debug args st) = cache st"
  by (simp add: log_Debug_def)

lemma cache_log_Error [simp]: "cache (log_Error e st) = cache st"
  by (simp add: log_Error_def)

lemma cache_logError [simp]: "cache (logError err st) = cache st"
  by (simp add: logError_def split: option.split)

lemma cache_extcall [simp]: "cache (snd (extcall ev f st)) = cache st"
  by (simp add: extcall_def split: prod.split)

lemma evolves_world_update [simp]: "evolves a (st\<lparr>world := w\<rparr>) = evolves a st"
  by (simp add: evolves_def)

lemma evolves_trace_update [simp]: "evolves a (st\<lparr>trace := t\<rparr>) = evolves a st"
  by (simp add: evolves_def)

lemma evolves_transitiveStep [simp]:
  "evolves a (snd acc) \<Longrightarrow> evolves a (snd (transitiveStep ext targetRepo pwd e acc))"
  by (cases acc)
    (auto simp add: transitiveStep_def Let_def extcall_def evolves_fresh logError_def
      split: option.splits prod.splits if_splits)

lemma evolves_fold_transitiveStep:
  "evolves a (snd acc) \<Longrightarrow> evolves a (snd (fold (transitiveStep ext targetRepo pwd) es acc))"
  by (induction es arbitrary: acc) simp_all

lemma evolves_setTransitiveDependencies [simp]:
  "evolves a st \<Longrightarrow> evolves a (snd (setTransitiveDependencies ext targetRepo es pwd st))"
  by (simp add: setTransitiveDependencies_def case_prod_beta evolves_fold_transitiveStep)

lemma evolves_expandGraph [simp]:
  "evolves a st \<Longrightarrow> evolves a (snd (expandGraph ext path targetRepo es pwd st))"
  by (simp add: expandGraph_def case_prod_beta)

lemma evolves_removeWorkspace [simp]:
  "evolves a (removeWorkspace ext path st) = evolves a st"
  by (simp add: removeWorkspace_def case_prod_beta split: option.split)

lemma evolves_revertToOriginalMod:
  "revertToOriginalMod ext path pwd st = Normal (pwd', st') \<Longrightarrow> evolves a st' = evolves a st"
  by (auto simp add: revertToOriginalMod_def Let_def case_prod_beta bind_eq_Normal
      dest!: evolves_writeModContentToGoCache [where a = a])

lemma evolves_populateLoop:
  "rec_evolves rec \<Longrightarrow> populateLoop rec cs st = Normal st' \<Longrightarrow> evolves a st \<Longrightarrow> evolves a st'"
proof (induction cs arbitrary: st)
  case Nil
  then show ?case by simp
next
  case (Cons c cs)
  show ?case
  proof (cases "published_in st (GetId c)")
    case True
    with Cons.prems have "populateLoop rec cs
        (log_Debug [''The dependency'', GetId c, ''was already handled''] (IncrementSuccess st)) = Normal st'"
      by simp
    then show ?thesis
      using Cons.IH Cons.prems(1,3) by simp
  next
    case False
    with Cons.prems obtain e p s1 where
      r: "rec c (log_Debug [''Starting to work on transitive dependency:'', GetId c] st) = Normal (e, p, s1)"
      and l: "populateLoop rec cs s1 = Normal st'"
      by (auto simp add: bind_eq_Normal)
    from r Cons.prems(1) have "evolves (log_Debug [''Starting to work on transitive dependency:'', GetId c] st) s1"
      unfolding rec_evolves_def by blast
    with Cons.prems(3) have "evolves a s1"
      using evolves_trans [of a "log_Debug [''Starting to work on transitive dependency:'', GetId c] st" s1]
      by simp
    with Cons.IH [OF Cons.prems(1) l] show ?thesis .
  qed
qed

lemma evolves_populateTransitive:
  "rec_evolves rec \<Longrightarrow> populateTransitive rec pwd st = Normal st' \<Longrightarrow> evolves a st \<Longrightarrow> evolves a st'"
  unfolding populateTransitive_def
  by (erule evolves_populateLoop, assumption) simp

lemma evolves_persistToGoCache:
  "persistToGoCache ext published pwd st = Normal st' \<Longrightarrow> evolves a st' = evolves a st"
  by (auto simp add: persistToGoCache_def bind_eq_Normal split: if_splits
      dest!: evolves_writeModContentToGoCache [where a = a])

lemma evolves_publishUnlessPublished [simp]:
  "evolves a st \<Longrightarrow> evolves a (publishUnlessPublished ext targetRepo published pwd st)"
  by (simp add: publishUnlessPublished_def case_prod_beta)

lemma evolves_publishDependencyAndPopulateTransitive:
  assumes rec: "rec_evolves rec"
    and run: "publishDependencyAndPopulateTransitive rec ext path targetRepo es pwd st = Normal (e, pwd', st')"
    and a: "evolves a st"
  shows "evolves a st'"
proof -
  obtain pwd1 st1 where ex: "expandGraph ext path targetRepo es pwd st = (pwd1, st1)"
    by (cases "expandGraph ext path targetRepo es pwd st")
  have a1: "evolves a st1"
    using evolves_expandGraph [OF a, of ext path targetRepo es pwd] ex by simp
  from run ex obtain st2 st3 pwd2 st4 where
    s2: "persistToGoCache ext (published_in st1 (GetId pwd1)) pwd1 st1 = Normal st2"
    and s3: "(if transitiveDependencies pwd1 \<noteq> [] then populateTransitive rec pwd1 st2
              else Normal st2) = Normal st3"
    and s4: "(if \<not> published_in st1 (GetId pwd1) \<and> shouldRevertToEmptyMod pwd1
              then revertToOriginalMod ext path pwd1 st3 else Normal (pwd1, st3)) = Normal (pwd2, st4)"
    and s5: "st' = removeWorkspace ext path
               (publishUnlessPublished ext targetRepo (published_in st1 (GetId pwd1)) pwd2 st4)"
    by (auto simp add: publishDependencyAndPopulateTransitive_def Let_def bind_eq_Normal)
  from s2 a1 have a2: "evolves a st2"
    by (simp add: evolves_persistToGoCache)
  from s3 a2 have a3: "evolves a st3"
    by (auto split: if_splits dest: evolves_populateTransitive [OF rec, where a = a])
  from s4 a3 have a4: "evolves a st4"
    by (auto split: if_splits dest!: evolves_revertToOriginalMod [where a = a])
  from s5 a4 show ?thesis
    by simp
qed

lemma evolves_overwriteModFromArtifactory:
  "overwriteModFromArtifactory ext targetRepo pwd st = Normal (pwd', st') \<Longrightarrow> evolves a st
    \<Longrightarrow> evolves a st'"
  by (auto simp add: overwriteModFromArtifactory_def Let_def case_prod_beta split: if_splits)

lemma evolves_prepareAndPublishNode:
  assumes rec: "rec_evolves rec"
    and run: "prepareAndPublishNode rec ext targetRepo pwd st = Normal (e, pwd', st')"
    and a: "evolves a st"
  shows "evolves a st'"
proof -
  define st2 where "st2 = log_Debug [''Dependency '' @ GetId pwd @ '' mod file is empty: ''
                    @ (if \<not> PatternMatched pwd (GetNotEmptyModRegex (regExp pwd))
                       then ''true'' else ''false'')] st"
  obtain path outp err pwd2 st3 where
    c: "createDependencyAndPrepareMod ext pwd st2 = ((path, outp, err), pwd2, st3)"
    by (metis prod_cases3)
  have "evolves a st2"
    using a by (simp add: st2_def)
  then have a3: "evolves a (logError err st3)"
    using evolves_createDependencyAndPrepareMod [of a st2 ext pwd] c by simp
  from run c obtain e' where
    "publishDependencyAndPopulateTransitive rec ext path targetRepo outp pwd2 (logError err st3)
       = Normal (e', pwd', st')"
    unfolding prepareAndPublishNode_def st2_def [symmetric] Let_def
    by (auto simp add: bind_eq_Normal)
  from evolves_publishDependencyAndPopulateTransitive [OF rec this a3] show ?thesis .
qed

lemma evolves_PopulateModAndPublish_body:
  assumes rec: "rec_evolves rec"
    and run: "PopulateModAndPublish_body rec ext targetRepo pwd st = Normal (e, pwd', st')"
    and a: "evolves a st"
  shows "evolves a st'"
proof -
  let ?st0 = "log_Debug [''Starting to work on'', GetId pwd] st"
  from run obtain pwd1 st1 where
    r: "(if published_in ?st0 (GetId pwd) then overwriteModFromArtifactory ext targetRepo pwd ?st0
         else Normal (pwd, ?st0)) = Normal (pwd1, st1)"
    and n: "prepareAndPublishNode rec ext targetRepo pwd1 st1 = Normal (e, pwd', st')"
    by (auto simp add: PopulateModAndPublish_body_def Let_def bind_eq_Normal)
  from r a have "evolves a st1"
    by (auto split: if_splits dest: evolves_overwriteModFromArtifactory [where a = a])
  from evolves_prepareAndPublishNode [OF rec n this] show ?thesis .
qed

lemma rec_evolves_PopulateModAndPublish: "rec_evolves (PopulateModAndPublish n ext targetRepo)"
proof (induction n)
  case 0
  show ?case by (simp add: rec_evolves_def)
next
  case (Suc n)
  show ?case
    unfolding rec_evolves_def
    using evolves_PopulateModAndPublish_body [OF Suc] by (auto intro: evolves_refl)
qed

lemma evolves_PopulateModAndPublish:
  "PopulateModAndPublish n ext targetRepo pwd st = Normal (e, pwd', st') \<Longrightarrow> evolves st st'"
  using rec_evolves_PopulateModAndPublish [of n ext targetRepo] unfolding rec_evolves_def by blast

text \<open>Transitive expansion leaves every entry that exists as it is.\<close>

lemma transitiveStep_keeps_entries:
  "GetMap (cache (snd acc)) k \<noteq> None \<Longrightarrow>
   GetMap (cache (snd (transitiveStep ext targetRepo pwd e acc))) k = GetMap (cache (snd acc)) k"
  by (cases acc)
    (auto simp add: transitiveStep_def Let_def extcall_def logError_def map_store_def
      split: option.splits prod.splits if_splits)

lemma fold_transitiveStep_keeps_entries:
  "GetMap (cache (snd acc)) k \<noteq> None \<Longrightarrow>
   GetMap (cache (snd (fold (transitiveStep ext targetRepo pwd) es acc))) k = GetMap (cache (snd acc)) k"
proof (induction es arbitrary: acc)
  case Nil
  then show ?case by simp
next
  case (Cons e es)
  have "GetMap (cache (snd (transitiveStep ext targetRepo pwd e acc))) k = GetMap (cache (snd acc)) k"
    using Cons.prems by (rule transitiveStep_keeps_entries)
  with Cons show ?case by simp
qed

lemma setTransitiveDependencies_keeps_entries:
  "GetMap (cache st) k \<noteq> None \<Longrightarrow>
   GetMap (cache (snd (setTransitiveDependencies ext targetRepo es pwd st))) k = GetMap (cache st) k"
  using fold_transitiveStep_keeps_entries [of "([], st)" k ext targetRepo pwd es]
  by (simp add: setTransitiveDependencies_def case_prod_beta)

lemma prepareAndPublish_map:
  "GetMap (cache (snd (prepareAndPublish ext targetRepo pwd st))) = (GetMap (cache st))(GetId pwd \<mapsto> True)"
  by (simp add: prepareAndPublish_def Package_prepareAndPublish_def extcall_def map_store_def
      IncrementFailures_def IncrementSuccess_def split: prod.split option.split)

section \<open>Fields of a node, and the calls a step adds\<close>

lemma set_Dependency_sel [simp]:
  "Dependency (set_Dependency d pwd) = d"
  "transitiveDependencies (set_Dependency d pwd) = transitiveDependencies pwd"
  "regExp (set_Dependency d pwd) = regExp pwd"
  "runGoModCommand (set_Dependency d pwd) = runGoModCommand pwd"
  "shouldRevertToEmptyMod (set_Dependency d pwd) = shouldRevertToEmptyMod pwd"
  "TidyEnum (set_Dependency d pwd) = TidyEnum pwd"
  "cachePath (set_Dependency d pwd) = cachePath pwd"
  "GoModEditMessage (set_Dependency d pwd) = GoModEditMessage pwd"
  "originalModContent (set_Dependency d pwd) = originalModContent pwd"
  by (cases pwd; simp)+

lemma set_transitiveDependencies_sel [simp]:
  "Dependency (set_transitiveDependencies t pwd) = Dependency pwd"
  "transitiveDependencies (set_transitiveDependencies t pwd) = t"
  "regExp (set_transitiveDependencies t pwd) = regExp pwd"
  "runGoModCommand (set_transitiveDependencies t pwd) = runGoModCommand pwd"
  "shouldRevertToEmptyMod (set_transitiveDependencies t pwd) = shouldRevertToEmptyMod pwd"
  "TidyEnum (set_transitiveDependencies t pwd) = TidyEnum pwd"
  "cachePath (set_transitiveDependencies t pwd) = cachePath pwd"
  "GoModEditMessage (set_transitiveDependencies t pwd) = GoModEditMessage pwd"
  "originalModContent (set_transitiveDependencies t pwd) = originalModContent pwd"
  by (cases pwd; simp)+

lemma set_shouldRevertToEmptyMod_sel [simp]:
  "Dependency (set_shouldRevertToEmptyMod b pwd) = Dependency pwd"
  "transitiveDependencies (set_shouldRevertToEmptyMod b pwd) = transitiveDependencies pwd"
  "regExp (set_shouldRevertToEmptyMod b pwd) = regExp pwd"
  "runGoModCommand (set_shouldRevertToEmptyMod b pwd) = runGoModCommand pwd"
  "shouldRevertToEmptyMod (set_shouldRevertToEmptyMod b pwd) = b"
  "TidyEnum (set_shouldRevertToEmptyMod b pwd) = TidyEnum pwd"
  "cachePath (set_shouldRevertToEmptyMod b pwd) = cachePath pwd"
  "GoModEditMessage (set_shouldRevertToEmptyMod b pwd) = GoModEditMessage pwd"
  "originalModContent (set_shouldRevertToEmptyMod b pwd) = originalModContent pwd"
  by (cases pwd; simp)+

lemma set_originalModContent_sel [simp]:
  "Dependency (set_originalModContent x pwd) = Dependency pwd"
  "transitiveDependencies (set_originalModContent x pwd) = transitiveDependencies pwd"
  "regExp (set_originalModContent x pwd) = regExp pwd"
  "runGoModCommand (set_originalModContent x pwd) = runGoModCommand pwd"
  "shouldRevertToEmptyMod (set_originalModContent x pwd) = shouldRevertToEmptyMod pwd"
  "TidyEnum (set_originalModContent x pwd) = TidyEnum pwd"
  "cachePath (set_originalModContent x pwd) = cachePath pwd"
  "GoModEditMessage (set_originalModContent x pwd) = GoModEditMessage pwd"
  "originalModContent (set_originalModContent x pwd) = x"
  by (cases pwd; simp)+

lemma SetModContent_sel [simp]:
  "Dependency (SetModContent c pwd) = (Dependency pwd)\<lparr>modContent := c\<rparr>"
  "transitiveDependencies (SetModContent c pwd) = transitiveDependencies pwd"
  "regExp (SetModContent c pwd) = regExp pwd"
  "runGoModCommand (SetModContent c pwd) = runGoModCommand pwd"
  "shouldRevertToEmptyMod (SetModContent c pwd) = shouldRevertToEmptyMod pwd"
  "TidyEnum (SetModContent c pwd) = TidyEnum pwd"
  "cachePath (SetModContent c pwd) = cachePath pwd"
  "GoModEditMessage (SetModContent c pwd) = GoModEditMessage pwd"
  "originalModContent (SetModContent c pwd) = originalModContent pwd"
  by (simp_all add: SetModContent_def)

lemma GetId_setters [simp]:
  "GetId (SetModContent c pwd) = GetId pwd"
  "GetId (set_transitiveDependencies t pwd) = GetId pwd"
  "GetId (set_shouldRevertToEmptyMod b pwd) = GetId pwd"
  "GetId (set_originalModContent x pwd) = GetId pwd"
  by (simp_all add: GetId_def)

lemma GetModContent_setters [simp]:
  "GetModContent (SetModContent c pwd) = c"
  "GetModContent (set_transitiveDependencies t pwd) = GetModContent pwd"
  "GetModContent (set_shouldRevertToEmptyMod b pwd) = GetModContent pwd"
  "GetModContent (set_originalModContent x pwd) = GetModContent pwd"
  by (simp_all add: GetModContent_def)

lemma set_transitiveDependencies_same [simp]:
  "set_transitiveDependencies (transitiveDependencies pwd) pwd = pwd"
  by (cases pwd) simp

lemma expandGraph_node:
  "fst (expandGraph ext path targetRepo es pwd st)
     = set_transitiveDependencies (transitiveDependencies (fst (expandGraph ext path targetRepo es pwd st))) pwd"
  by (simp add: expandGraph_def setTransitiveDependencies_def case_prod_beta)

lemma calls_append [simp]: "calls (a @ b) = calls a @ calls b"
  by (simp add: calls_def)

lemma calls_simps [simp]:
  "calls [] = []"
  "calls (ev # t) = (if is_log ev then calls t else ev # calls t)"
  by (simp_all add: calls_def)

lemma trace_emit [simp]: "trace (emit ev st) = trace st @ [ev]"
  by (simp add: emit_def)

lemma trace_log_Debug [simp]: "trace (log_Debug args st) = trace st @ [Debug args]"
  by (simp add: log_Debug_def)

lemma trace_log_Error [simp]: "trace (log_Error e st) = trace st @ [LogError e]"
  by (simp add: log_Error_def)

lemma calls_trace_logError [simp]: "calls (trace (logError err st)) = calls (trace st)"
  by (simp add: logError_def split: option.split)

lemma trace_extcall [simp]: "trace (snd (extcall ev f st)) = trace st @ [ev]"
  by (simp add: extcall_def split: prod.split)

lemma extcall_eqD:
  "extcall ev f st = (r, st') \<Longrightarrow>
     trace st' = trace st @ [ev] \<and> cache st' = cache st \<and> env st' = env st \<and> cwd st' = cwd st"
  by (auto simp add: extcall_def split: prod.splits)

lemma calls_trace_removeWorkspace:
  "calls (trace (removeWorkspace ext path st)) = calls (trace st) @ [Call_RemoveAll (Dir ext path)]"
  by (simp add: removeWorkspace_def case_prod_beta split: option.split)

lemma calls_trace_prepareAndPublish:
  "calls (trace (snd (prepareAndPublish ext targetRepo pwd st)))
     = calls (trace st) @ [Call_Publish targetRepo (Dependency pwd)]"
  by (simp add: prepareAndPublish_def Package_prepareAndPublish_def case_prod_beta map_store_def
      IncrementFailures_def IncrementSuccess_def split: option.split)

lemma revertToOriginalMod_result:
  assumes "revertToOriginalMod ext path pwd st = Normal (pwd', st')"
  shows "pwd' = SetModContent (revertedModContent pwd) (set_originalModContent (revertedModContent pwd) pwd) \<and>
         (\<exists>gp. goCacheModPath ext pwd = Normal gp \<and>
            calls (trace st') = calls (trace st) @
              [Call_WriteFile path (revertedModContent pwd), Call_WriteFile gp (revertedModContent pwd)])"
  using assms
  by (auto simp add: revertToOriginalMod_def Let_def case_prod_beta bind_eq_Normal
      writeModContentToGoCache_def writeModContentToModFile_def goCacheModPath_def
      split: if_splits dest!: extcall_eqD)


section \<open>Already published packages\<close>

lemma cache_os_Unsetenv [simp]: "cache (snd (os_Unsetenv ext key st)) = cache st"
  by (simp add: os_Unsetenv_def case_prod_beta)

lemma cache_os_Chdir [simp]: "cache (snd (os_Chdir ext dir st)) = cache st"
  by (simp add: os_Chdir_def case_prod_beta)

lemma cache_getModPathAndUnzipDependency [simp]:
  "cache (snd (getModPathAndUnzipDependency ext path pwd st)) = cache st"
  by (simp add: getModPathAndUnzipDependency_def case_prod_beta split: option.split)

lemma published_in_cache: "cache st' = cache st \<Longrightarrow> published_in st' k = published_in st k"
  by (simp add: published_in_def)

lemma trace_os_Unsetenv [simp]:
  "trace (snd (os_Unsetenv ext key st)) = trace st @ [Call_Unsetenv key]"
  by (simp add: os_Unsetenv_def case_prod_beta)

lemma trace_os_Chdir [simp]:
  "trace (snd (os_Chdir ext dir st)) = trace st @ [Call_Chdir dir]"
  by (simp add: os_Chdir_def case_prod_beta)





section \<open>The children of a node\<close>

lemma transitiveStep_cases:
  assumes "transitiveStep ext targetRepo pwd e (deps, st) = (deps', st')"
  shows "(deps' = deps \<and> GetMap (cache st') = GetMap (cache st)) \<or>
         (\<exists>c. deps' = deps @ [c] \<and> wellformed_edge e \<and> GetId c = child_key ext e \<and>
              GetMap (cache st) (GetId c) = None \<and>
              GetMap (cache st') = (GetMap (cache st))(GetId c \<mapsto> existence_probe ext targetRepo pwd e st) \<and>
              shares_with c pwd \<and> transitiveDependencies c = [])"
  using assms
  by (auto simp add: transitiveStep_def Let_def extcall_def logError_def log_Error_def log_Debug_def
      emit_def map_store_def child_key_def existence_probe_def shares_with_def wellformed_edge_def
      new_Package_def GetId_def
      split: option.splits prod.splits if_splits)


lemma fresh_children_step:
  assumes "fresh_children pwd st acc"
  shows "fresh_children pwd st (transitiveStep ext targetRepo pwd e acc)"
proof -
  obtain deps s where acc: "acc = (deps, s)" by (cases acc)
  obtain deps' s' where r: "transitiveStep ext targetRepo pwd e (deps, s) = (deps', s')"
    by (cases "transitiveStep ext targetRepo pwd e (deps, s)")
  from transitiveStep_cases [OF r] show ?thesis
  proof
    assume "deps' = deps \<and> GetMap (cache s') = GetMap (cache s)"
    with assms show ?thesis
      by (simp add: fresh_children_def acc r)
  next
    assume "\<exists>c. deps' = deps @ [c] \<and> wellformed_edge e \<and> GetId c = child_key ext e \<and>
              GetMap (cache s) (GetId c) = None \<and>
              GetMap (cache s') = (GetMap (cache s))(GetId c \<mapsto> existence_probe ext targetRepo pwd e s) \<and>
              shares_with c pwd \<and> transitiveDependencies c = []"
    then obtain c where c: "deps' = deps @ [c]" "GetMap (cache s) (GetId c) = None"
      "GetMap (cache s') = (GetMap (cache s))(GetId c \<mapsto> existence_probe ext targetRepo pwd e s)"
      "shares_with c pwd" "transitiveDependencies c = []"
      by blast
    have "GetMap (cache st) (GetId c) = None"
      using assms c(2) by (auto simp add: fresh_children_def acc)
    with assms c show ?thesis
      by (auto simp add: fresh_children_def acc r)
  qed
qed

lemma fresh_children_fold:
  "fresh_children pwd st acc \<Longrightarrow> fresh_children pwd st (fold (transitiveStep ext targetRepo pwd) es acc)"
  by (induction es arbitrary: acc) (simp_all add: fresh_children_step)

lemma setTransitiveDependencies_children:
  "\<forall>c\<in>set (transitiveDependencies (fst (setTransitiveDependencies ext targetRepo es pwd st))).
      GetMap (cache st) (GetId c) = None \<and>
      GetMap (cache (snd (setTransitiveDependencies ext targetRepo es pwd st))) (GetId c) \<noteq> None \<and>
      shares_with c pwd \<and> transitiveDependencies c = []"
  using fresh_children_fold [of pwd st "([], st)" ext targetRepo es]
  by (simp add: fresh_children_def setTransitiveDependencies_def case_prod_beta)

lemma expandGraph_children:
  assumes "transitiveDependencies pwd = []"
  shows "\<forall>c\<in>set (transitiveDependencies (fst (expandGraph ext path targetRepo es pwd st))).
      GetMap (cache st) (GetId c) = None \<and>
      GetMap (cache (snd (expandGraph ext path targetRepo es pwd st))) (GetId c) \<noteq> None \<and>
      shares_with c pwd \<and> transitiveDependencies c = []"
  using assms
    setTransitiveDependencies_children [of ext targetRepo es pwd
      "logError (snd (snd (fst (extcall (Call_GetSumContentAndRemove (Dir ext path))
                (GetSumContentAndRemove ext (Dir ext path)) st))))
         (snd (extcall (Call_GetSumContentAndRemove (Dir ext path))
                (GetSumContentAndRemove ext (Dir ext path)) st))"]
  by (simp add: expandGraph_def case_prod_beta)

lemma populateLoop_recorded:
  assumes rec2: "rec_evolves rec2"
    and same: "\<And>c s. GetMap (cache s) (GetId c) \<noteq> None \<Longrightarrow> rec1 c s = rec2 c s"
  shows "\<forall>c\<in>set cs. GetMap (cache st) (GetId c) \<noteq> None \<Longrightarrow>
         populateLoop rec1 cs st = populateLoop rec2 cs st"
proof (induction cs arbitrary: st)
  case Nil
  show ?case by simp
next
  case (Cons c cs)
  show ?case
  proof (cases "published_in st (GetId c)")
    case True
    have "\<forall>d\<in>set cs. GetMap (cache (log_Debug [''The dependency'', GetId c, ''was already handled'']
                 (IncrementSuccess st))) (GetId d) \<noteq> None"
      using Cons.prems by (simp add: IncrementSuccess_def)
    from Cons.IH [OF this] True show ?thesis by simp
  next
    case False
    let ?s = "log_Debug [''Starting to work on transitive dependency:'', GetId c] st"
    have eq: "rec1 c ?s = rec2 c ?s"
      using Cons.prems by (intro same) simp
    show ?thesis
    proof (cases "rec2 c ?s")
      case (Normal r)
      obtain e p s1 where r: "r = (e, p, s1)" by (cases r)
      from rec2 Normal r have "evolves ?s s1"
        unfolding rec_evolves_def by blast
      then have "\<forall>d\<in>set cs. GetMap (cache s1) (GetId d) \<noteq> None"
        using Cons.prems by (simp add: evolves_def)
      from Cons.IH [OF this] False eq Normal r show ?thesis by simp
    qed (simp_all add: False eq)
  qed
qed

lemma cache_writeModContentToGoCache:
  "writeModContentToGoCache ext pwd st = Normal (err, st') \<Longrightarrow> cache st' = cache st"
  by (auto simp add: writeModContentToGoCache_def bind_eq_Normal dest!: extcall_eqD)

lemma transitiveDependencies_createDependencyAndPrepareMod [simp]:
  "transitiveDependencies (fst (snd (createDependencyAndPrepareMod ext pwd st)))
     = transitiveDependencies pwd"
  by (simp add: createDependencyAndPrepareMod_def prepareUnpublishedDependency_def
      case_prod_beta Let_def split: option.split)

lemma transitiveDependencies_overwriteModFromArtifactory:
  "overwriteModFromArtifactory ext targetRepo pwd st = Normal (pwd', st') \<Longrightarrow>
     transitiveDependencies pwd' = transitiveDependencies pwd"
  by (auto simp add: overwriteModFromArtifactory_def updateModContent_def Let_def case_prod_beta
      split: if_splits option.splits)

lemma cache_persistToGoCache:
  "persistToGoCache ext published pwd st = Normal st' \<Longrightarrow> cache st' = cache st"
  by (auto simp add: persistToGoCache_def bind_eq_Normal split: if_splits
      dest: cache_writeModContentToGoCache)

lemma bind_cong_Normal:
  "(\<And>x. m = Normal x \<Longrightarrow> f x = g x) \<Longrightarrow> bind m f = bind m g"
  by (cases m) simp_all

lemma publishDependencyAndPopulateTransitive_recorded:
  assumes rec2: "rec_evolves rec2"
    and same: "\<And>c s. GetMap (cache s) (GetId c) \<noteq> None \<Longrightarrow> rec1 c s = rec2 c s"
    and nil: "transitiveDependencies pwd = []"
  shows "publishDependencyAndPopulateTransitive rec1 ext path targetRepo es pwd st
           = publishDependencyAndPopulateTransitive rec2 ext path targetRepo es pwd st"
proof -
  obtain pwd1 st1 where ex: "expandGraph ext path targetRepo es pwd st = (pwd1, st1)"
    by (cases "expandGraph ext path targetRepo es pwd st")
  have ch: "\<forall>c\<in>set (transitiveDependencies pwd1). GetMap (cache st1) (GetId c) \<noteq> None"
    using expandGraph_children [OF nil, of ext path targetRepo es st] ex by simp
  have loop: "populateTransitive rec1 pwd1 s = populateTransitive rec2 pwd1 s"
    if "cache s = cache st1" for s
    unfolding populateTransitive_def
    using ch that by (intro populateLoop_recorded [OF rec2 same]) (simp_all add: IncrementTotal_def)
  show ?thesis
    unfolding publishDependencyAndPopulateTransitive_def ex prod.case Let_def
    by (rule bind_cong_Normal) (simp add: loop cache_persistToGoCache)
qed

lemma PopulateModAndPublish_body_recorded:
  assumes rec2: "rec_evolves rec2"
    and same: "\<And>c s. GetMap (cache s) (GetId c) \<noteq> None \<Longrightarrow> rec1 c s = rec2 c s"
    and nil: "transitiveDependencies pwd = []"
  shows "PopulateModAndPublish_body rec1 ext targetRepo pwd st
           = PopulateModAndPublish_body rec2 ext targetRepo pwd st"
proof -
  have node: "prepareAndPublishNode rec1 ext targetRepo p s = prepareAndPublishNode rec2 ext targetRepo p s"
    if "transitiveDependencies p = []" for p s
    using that
    by (simp add: prepareAndPublishNode_def Let_def case_prod_beta
        publishDependencyAndPopulateTransitive_recorded [OF rec2 same])
  have "bind m (\<lambda>(p, s). prepareAndPublishNode rec1 ext targetRepo p s)
          = bind m (\<lambda>(p, s). prepareAndPublishNode rec2 ext targetRepo p s)"
    if "\<And>p s. m = Normal (p, s) \<Longrightarrow> transitiveDependencies p = []" for m
    using that node by (cases m) auto
  moreover have "(if c then overwriteModFromArtifactory ext targetRepo pwd s0 else Normal (pwd, s0))
                    = Normal (p, s) \<Longrightarrow> transitiveDependencies p = []" for c s0 p s
    using nil by (auto split: if_splits dest: transitiveDependencies_overwriteModFromArtifactory)
  ultimately show ?thesis
    by (simp add: PopulateModAndPublish_body_def Let_def)
qed


section \<open>Environment and working directory of the process\<close>

lemma env_emit [simp]: "env (emit ev st) = env st"
  by (simp add: emit_def)

lemma env_log_Debug [simp]: "env (log_Debug args st) = env st"
  by (simp add: log_Debug_def)

lemma env_log_Error [simp]: "env (log_Error e st) = env st"
  by (simp add: log_Error_def)

lemma env_logError [simp]: "env (logError err st) = env st"
  by (simp add: logError_def split: option.split)

lemma env_extcall [simp]: "env (snd (extcall ev f st)) = env st"
  by (simp add: extcall_def split: prod.split)

lemma cwd_emit [simp]: "cwd (emit ev st) = cwd st"
  by (simp add: emit_def)

lemma cwd_log_Debug [simp]: "cwd (log_Debug args st) = cwd st"
  by (simp add: log_Debug_def)

lemma cwd_log_Error [simp]: "cwd (log_Error e st) = cwd st"
  by (simp add: log_Error_def)

lemma cwd_logError [simp]: "cwd (logError err st) = cwd st"
  by (simp add: logError_def split: option.split)

lemma cwd_extcall [simp]: "cwd (snd (extcall ev f st)) = cwd st"
  by (simp add: extcall_def split: prod.split)

lemma world_emit [simp]: "world (emit ev st) = world st"
  by (simp add: emit_def)

lemma world_log_Debug [simp]: "world (log_Debug args st) = world st"
  by (simp add: log_Debug_def)

lemma world_log_Error [simp]: "world (log_Error e st) = world st"
  by (simp add: log_Error_def)

lemma world_logError [simp]: "world (logError err st) = world st"
  by (simp add: logError_def split: option.split)

lemma fst_extcall [simp]: "fst (extcall ev f st) = fst (f (world st))"
  by (simp add: extcall_def split: prod.split)

lemma world_extcall [simp]: "world (snd (extcall ev f st)) = snd (f (world st))"
  by (simp add: extcall_def split: prod.split)

lemma fst_os_Unsetenv [simp]: "fst (os_Unsetenv ext key st) = fst (Unsetenv ext key (world st))"
  by (simp add: os_Unsetenv_def case_prod_beta)

lemma env_os_Unsetenv:
  "env (snd (os_Unsetenv ext key st))
     = (if fst (Unsetenv ext key (world st)) = None then (env st)(key := None) else env st)"
  by (simp add: os_Unsetenv_def case_prod_beta)

lemma cwd_os_Unsetenv [simp]: "cwd (snd (os_Unsetenv ext key st)) = cwd st"
  by (simp add: os_Unsetenv_def case_prod_beta)

lemma world_os_Unsetenv [simp]: "world (snd (os_Unsetenv ext key st)) = snd (Unsetenv ext key (world st))"
  by (simp add: os_Unsetenv_def case_prod_beta)

lemma fst_os_Chdir [simp]: "fst (os_Chdir ext dir st) = fst (Chdir ext dir (world st))"
  by (simp add: os_Chdir_def case_prod_beta)

lemma env_os_Chdir [simp]: "env (snd (os_Chdir ext dir st)) = env st"
  by (simp add: os_Chdir_def case_prod_beta)

lemma cwd_os_Chdir:
  "cwd (snd (os_Chdir ext dir st)) = (if fst (Chdir ext dir (world st)) = None then dir else cwd st)"
  by (simp add: os_Chdir_def case_prod_beta)

lemma world_os_Chdir [simp]: "world (snd (os_Chdir ext dir st)) = snd (Chdir ext dir (world st))"
  by (simp add: os_Chdir_def case_prod_beta)

lemma unsetenv_first:
  "calls (trace (snd (getModPathAndUnzipDependency ext path pwd st)))
     = calls (trace st) @ Call_Unsetenv GOPROXY #
         (if fst (Unsetenv ext GOPROXY (world st)) = None
          then [Call_createDependencyInTemp (GetZipPath pwd)] else [])"
  by (simp add: getModPathAndUnzipDependency_def case_prod_beta split: option.split)

lemma env_getModPathAndUnzipDependency:
  "env (snd (getModPathAndUnzipDependency ext path pwd st))
     = (if fst (Unsetenv ext GOPROXY (world st)) = None then (env st)(GOPROXY := None) else env st)"
  by (simp add: getModPathAndUnzipDependency_def case_prod_beta env_os_Unsetenv split: option.split)

lemma cwd_getModPathAndUnzipDependency [simp]:
  "cwd (snd (getModPathAndUnzipDependency ext path pwd st)) = cwd st"
  by (simp add: getModPathAndUnzipDependency_def case_prod_beta split: option.split)

lemma env_useCachedMod [simp]: "env (snd (useCachedMod ext path pwd st)) = env st"
  by (simp add: useCachedMod_def case_prod_beta Let_def writeModContentToModFile_def
      split: option.split)

lemma cwd_useCachedMod:
  "cwd (snd (useCachedMod ext path pwd st))
     = (if fst (useCachedMod ext path pwd st) = None then Dir ext path else cwd st)"
  by (simp add: useCachedMod_def case_prod_beta Let_def writeModContentToModFile_def cwd_os_Chdir
      split: option.split)

lemma env_prepareAndRunInit [simp]: "env (snd (prepareAndRunInit ext path pwd st)) = env st"
  by (simp add: prepareAndRunInit_def case_prod_beta Let_def split: option.split)

lemma cwd_prepareAndRunInit:
  "cwd (snd (prepareAndRunInit ext path pwd st))
     = (if fst (Chdir ext (Dir ext path) (world st)) = None then Dir ext path else cwd st)"
  by (simp add: prepareAndRunInit_def case_prod_beta Let_def cwd_os_Chdir split: option.split)

lemma env_prepareUnpublishedDependency [simp]:
  "env (snd (snd (prepareUnpublishedDependency ext path o0 pwd st))) = env st"
  by (simp add: prepareUnpublishedDependency_def case_prod_beta Let_def writeModContentToModFile_def
      split: option.split)

lemma cwd_prepareUnpublishedDependency:
  "cwd (snd (snd (prepareUnpublishedDependency ext path o0 pwd st)))
     = (if fst (Chdir ext (Dir ext path) (world st)) = None then Dir ext path else cwd st)"
  by (simp add: prepareUnpublishedDependency_def case_prod_beta Let_def writeModContentToModFile_def
      cwd_prepareAndRunInit split: option.split)

lemma env_createDependencyAndPrepareMod:
  "env (snd (snd (createDependencyAndPrepareMod ext pwd st)))
     = (if fst (Unsetenv ext GOPROXY (world st)) = None then (env st)(GOPROXY := None) else env st)"
  by (simp add: createDependencyAndPrepareMod_def case_prod_beta Let_def writeModContentToModFile_def
      env_getModPathAndUnzipDependency split: option.split)


lemma cwd_createDependencyAndPrepareMod:
  assumes unz: "snd (fst (getModPathAndUnzipDependency ext [] pwd st)) = None"
    and chd: "\<forall>d w. fst (Chdir ext d w) = None"
    and branch: "PatternMatched pwd (GetNotEmptyModRegex (regExp pwd)) \<or> \<not> published_in st (GetId pwd)"
  shows "cwd (snd (snd (createDependencyAndPrepareMod ext pwd st)))
           = Dir ext (fst (fst (getModPathAndUnzipDependency ext [] pwd st)))"
proof -
  have p: "published_in (snd (getModPathAndUnzipDependency ext [] pwd st)) (GetId pwd)
             = published_in st (GetId pwd)"
    by (simp add: published_in_def)
  have m: "PatternMatched (set_shouldRevertToEmptyMod False pwd) (GetNotEmptyModRegex (regExp pwd))
             = PatternMatched pwd (GetNotEmptyModRegex (regExp pwd))"
    by (simp add: PatternMatched_def)
  have u: "fst (useCachedMod ext path p s) = None" for path p s
    using chd by (simp add: useCachedMod_def case_prod_beta Let_def split: option.split)
  show ?thesis
    using unz chd branch
    by (auto simp add: createDependencyAndPrepareMod_def case_prod_beta Let_def p m u
        cwd_useCachedMod cwd_prepareUnpublishedDependency)
qed

lemma cwd_writeModContentToGoCache:
  "writeModContentToGoCache ext pwd st = Normal (err, st') \<Longrightarrow> cwd st' = cwd st"
  by (auto simp add: writeModContentToGoCache_def bind_eq_Normal dest!: extcall_eqD)

lemma cwd_persistToGoCache:
  "persistToGoCache ext published pwd st = Normal st' \<Longrightarrow> cwd st' = cwd st"
  by (auto simp add: persistToGoCache_def bind_eq_Normal split: if_splits
      dest: cwd_writeModContentToGoCache)

lemma cwd_revertToOriginalMod:
  "revertToOriginalMod ext path pwd st = Normal (pwd', st') \<Longrightarrow> cwd st' = cwd st"
  by (auto simp add: revertToOriginalMod_def Let_def bind_eq_Normal writeModContentToModFile_def
      case_prod_beta dest!: cwd_writeModContentToGoCache)

lemma cwd_IncrementSuccess [simp]: "cwd (IncrementSuccess st) = cwd st"
  by (simp add: IncrementSuccess_def)

lemma cwd_IncrementFailures [simp]: "cwd (IncrementFailures st) = cwd st"
  by (simp add: IncrementFailures_def)

lemma cwd_map_store [simp]: "cwd (map_store k b st) = cwd st"
  by (simp add: map_store_def)

lemma cwd_publishUnlessPublished [simp]:
  "cwd (publishUnlessPublished ext targetRepo published pwd st) = cwd st"
  by (simp add: publishUnlessPublished_def prepareAndPublish_def Package_prepareAndPublish_def
      case_prod_beta split: option.split)

lemma cwd_removeWorkspace [simp]: "cwd (removeWorkspace ext path st) = cwd st"
  by (simp add: removeWorkspace_def case_prod_beta split: option.split)

lemma cwd_publishDependencyAndPopulateTransitive_leaf:
  assumes run: "publishDependencyAndPopulateTransitive rec ext path targetRepo [] pwd st
                  = Normal (e, pwd', st')"
    and nil: "transitiveDependencies pwd = []"
  shows "cwd st' = cwd st"
proof -
  from run nil obtain st2 pwd2 st4 where
    s2: "persistToGoCache ext (published_in st (GetId pwd)) pwd st = Normal st2"
    and s4: "(if \<not> published_in st (GetId pwd) \<and> shouldRevertToEmptyMod pwd
              then revertToOriginalMod ext path pwd st2 else Normal (pwd, st2)) = Normal (pwd2, st4)"
    and s5: "st' = removeWorkspace ext path
               (publishUnlessPublished ext targetRepo (published_in st (GetId pwd)) pwd2 st4)"
    by (auto simp add: publishDependencyAndPopulateTransitive_def expandGraph_def Let_def
        bind_eq_Normal)
  from s4 have "cwd st4 = cwd st2"
    by (auto split: if_splits dest: cwd_revertToOriginalMod)
  with s2 s5 show ?thesis
    by (simp add: cwd_persistToGoCache)
qed

lemma env_prepareAndPublishNode:
  assumes rec: "rec_evolves rec"
    and run: "prepareAndPublishNode rec ext targetRepo pwd st = Normal (e, pwd', st')"
    and ok: "fst (Unsetenv ext GOPROXY (world st)) = None"
  shows "env st' GOPROXY = None"
proof -
  define st2 where "st2 = log_Debug [''Dependency '' @ GetId pwd @ '' mod file is empty: ''
                    @ (if \<not> PatternMatched pwd (GetNotEmptyModRegex (regExp pwd))
                       then ''true'' else ''false'')] st"
  obtain path outp err pwd2 st3 where
    c: "createDependencyAndPrepareMod ext pwd st2 = ((path, outp, err), pwd2, st3)"
    by (metis prod_cases3)
  have "world st2 = world st"
    by (simp add: st2_def)
  with ok have "env st3 GOPROXY = None"
    using env_createDependencyAndPrepareMod [of ext pwd st2] c by simp
  then have e3: "env (logError err st3) GOPROXY = None"
    by simp
  from run c obtain e' where
    "publishDependencyAndPopulateTransitive rec ext path targetRepo outp pwd2 (logError err st3)
       = Normal (e', pwd', st')"
    unfolding prepareAndPublishNode_def st2_def [symmetric] Let_def
    by (auto simp add: bind_eq_Normal)
  from evolves_publishDependencyAndPopulateTransitive [OF rec this evolves_refl] e3
  show ?thesis
    by (simp add: evolves_def)
qed

lemma env_PopulateModAndPublish:
  assumes run: "PopulateModAndPublish n ext targetRepo pwd st = Normal (e, pwd', st')"
    and ok: "\<forall>w. fst (Unsetenv ext GOPROXY w) = None"
  shows "env st' GOPROXY = None"
proof (cases n)
  case 0
  with run show ?thesis by simp
next
  case (Suc m)
  with run obtain pwd1 st1 where
    "prepareAndPublishNode (PopulateModAndPublish m ext targetRepo) ext targetRepo pwd1 st1
       = Normal (e, pwd', st')"
    by (auto simp add: PopulateModAndPublish_body_def Let_def bind_eq_Normal)
  from env_prepareAndPublishNode [OF rec_evolves_PopulateModAndPublish this] ok
  show ?thesis by simp
qed


section \<open>The recursion ends\<close>

lemma Split_nonempty [simp]: "Split s c \<noteq> []"
  by (induction s) (auto split: list.splits)

lemma Split_sep: "2 \<le> length (Split (a @ c # b) c)"
proof (induction a)
  case Nil
  have "Split b c \<noteq> []" by simp
  then show ?case by (cases "Split b c") simp_all
next
  case (Cons x a)
  then show ?case by (auto split: list.splits)
qed

lemma has_version_child_key [simp]: "has_version (child_key ext e)"
  using Split_sep [of "getDependencyName ext (Split e CHR ''@'' ! 0)" "CHR '':''" "Split e CHR ''@'' ! 1"]
  by (simp add: has_version_def child_key_def)






lemma GetId_updateModContent [simp]:
  "GetId (fst (snd (updateModContent ext path pwd st))) = GetId pwd"
  by (simp add: updateModContent_def case_prod_beta split: option.split)

lemma GetId_overwriteModFromArtifactory:
  "overwriteModFromArtifactory ext targetRepo pwd st = Normal (pwd', st') \<Longrightarrow> GetId pwd' = GetId pwd"
  by (auto simp add: overwriteModFromArtifactory_def Let_def case_prod_beta split: if_splits)

lemma GetId_createDependencyAndPrepareMod [simp]:
  "GetId (fst (snd (createDependencyAndPrepareMod ext pwd st))) = GetId pwd"
  by (simp add: createDependencyAndPrepareMod_def prepareUnpublishedDependency_def
      case_prod_beta Let_def split: option.split)








lemma remaining_cache: "cache s' = cache s \<Longrightarrow> remaining K s' = remaining K s"
  by (simp add: remaining_def)

















section \<open>The counters\<close>

lemma cache_writeModContentToModFile [simp]:
  "cache (snd (writeModContentToModFile ext path c st)) = cache st"
  by (simp add: writeModContentToModFile_def)

lemma cache_useCachedMod [simp]: "cache (snd (useCachedMod ext path pwd st)) = cache st"
  by (simp add: useCachedMod_def case_prod_beta Let_def split: option.split)

lemma cache_prepareAndRunInit [simp]: "cache (snd (prepareAndRunInit ext path pwd st)) = cache st"
  by (simp add: prepareAndRunInit_def case_prod_beta Let_def split: option.split)

lemma cache_prepareUnpublishedDependency [simp]:
  "cache (snd (snd (prepareUnpublishedDependency ext path o0 pwd st))) = cache st"
  by (simp add: prepareUnpublishedDependency_def case_prod_beta Let_def split: option.split)

lemma cache_createDependencyAndPrepareMod [simp]:
  "cache (snd (snd (createDependencyAndPrepareMod ext pwd st))) = cache st"
  by (simp add: createDependencyAndPrepareMod_def case_prod_beta Let_def split: option.split)

lemma cache_removeWorkspace [simp]: "cache (removeWorkspace ext path st) = cache st"
  by (simp add: removeWorkspace_def case_prod_beta split: option.split)

lemma cache_revertToOriginalMod:
  "revertToOriginalMod ext path pwd st = Normal (pwd', st') \<Longrightarrow> cache st' = cache st"
  by (auto simp add: revertToOriginalMod_def Let_def bind_eq_Normal case_prod_beta
      dest!: cache_writeModContentToGoCache)

lemma counters_transitiveStep:
  "total (cache (snd (transitiveStep ext targetRepo pwd e acc))) = total (cache (snd acc)) \<and>
   successes (cache (snd (transitiveStep ext targetRepo pwd e acc))) = successes (cache (snd acc)) \<and>
   failures (cache (snd (transitiveStep ext targetRepo pwd e acc))) = failures (cache (snd acc))"
  by (cases acc)
    (auto simp add: transitiveStep_def Let_def extcall_def logError_def map_store_def
      split: option.splits prod.splits if_splits)

lemma counters_fold_transitiveStep:
  "total (cache (snd (fold (transitiveStep ext targetRepo pwd) es acc))) = total (cache (snd acc)) \<and>
   successes (cache (snd (fold (transitiveStep ext targetRepo pwd) es acc))) = successes (cache (snd acc)) \<and>
   failures (cache (snd (fold (transitiveStep ext targetRepo pwd) es acc))) = failures (cache (snd acc))"
  by (induction es arbitrary: acc) (simp_all add: counters_transitiveStep)

lemma counters_expandGraph:
  "total (cache (snd (expandGraph ext path targetRepo es pwd st))) = total (cache st) \<and>
   successes (cache (snd (expandGraph ext path targetRepo es pwd st))) = successes (cache st) \<and>
   settled (snd (expandGraph ext path targetRepo es pwd st)) = settled st"
  by (simp add: expandGraph_def setTransitiveDependencies_def case_prod_beta settled_def
      counters_fold_transitiveStep)

lemma expandGraph_keeps_entries:
  "GetMap (cache st) k \<noteq> None \<Longrightarrow>
   GetMap (cache (snd (expandGraph ext path targetRepo es pwd st))) k = GetMap (cache st) k"
  using setTransitiveDependencies_keeps_entries [of _ k ext targetRepo es pwd]
  by (simp add: expandGraph_def case_prod_beta)

lemma counters_publishUnlessPublished:
  "total (cache (publishUnlessPublished ext targetRepo published pwd st)) = total (cache st) \<and>
   settled (publishUnlessPublished ext targetRepo published pwd st)
     = settled st + (if published then 0 else 1)"
  by (simp add: publishUnlessPublished_def prepareAndPublish_def Package_prepareAndPublish_def
      case_prod_beta settled_def map_store_def IncrementFailures_def IncrementSuccess_def
      split: option.split)

lemma populateLoop_balanced:
  assumes rb: "rec_balanced rec" and re: "rec_evolves rec"
  shows "\<forall>c\<in>set cs. GetMap (cache st) (GetId c) \<noteq> None \<and> transitiveDependencies c = [] \<Longrightarrow>
         populateLoop rec cs st = Normal st' \<Longrightarrow>
         settled st' + total (cache st) = settled st + total (cache st') + length cs"
proof (induction cs arbitrary: st)
  case Nil
  then show ?case by simp
next
  case (Cons c cs)
  show ?case
  proof (cases "published_in st (GetId c)")
    case True
    let ?s = "log_Debug [''The dependency'', GetId c, ''was already handled''] (IncrementSuccess st)"
    have 1: "\<forall>d\<in>set cs. GetMap (cache ?s) (GetId d) \<noteq> None \<and> transitiveDependencies d = []"
      using Cons.prems(1) by (simp add: IncrementSuccess_def)
    have 2: "populateLoop rec cs ?s = Normal st'"
      using Cons.prems(2) True by simp
    have "settled ?s = settled st + 1" "total (cache ?s) = total (cache st)"
      by (simp_all add: settled_def IncrementSuccess_def)
    with Cons.IH [OF 1 2] show ?thesis by simp
  next
    case False
    let ?s = "log_Debug [''Starting to work on transitive dependency:'', GetId c] st"
    from Cons.prems(2) False obtain e p s1 where
      r: "rec c ?s = Normal (e, p, s1)" and l: "populateLoop rec cs s1 = Normal st'"
      by (auto simp add: bind_eq_Normal)
    have f: "GetMap (cache ?s) (GetId c) = Some False" and n: "transitiveDependencies c = []"
      using Cons.prems(1) False by (auto simp add: published_in_def split: option.splits)
    from rb f n r have b: "settled s1 + total (cache ?s) = settled ?s + total (cache s1) + 1"
      unfolding rec_balanced_def by blast
    from re r have "evolves ?s s1"
      unfolding rec_evolves_def by blast
    then have 1: "\<forall>d\<in>set cs. GetMap (cache s1) (GetId d) \<noteq> None \<and> transitiveDependencies d = []"
      using Cons.prems(1) by (simp add: evolves_def)
    have "settled ?s = settled st" "total (cache ?s) = total (cache st)"
      by (simp_all add: settled_def)
    with Cons.IH [OF 1 l] b show ?thesis by simp
  qed
qed

lemma populateTransitive_balanced:
  assumes rb: "rec_balanced rec" and re: "rec_evolves rec"
    and ch: "\<forall>c\<in>set (transitiveDependencies pwd). GetMap (cache st) (GetId c) \<noteq> None \<and>
               transitiveDependencies c = []"
    and run: "populateTransitive rec pwd st = Normal st'"
  shows "settled st' + total (cache st) = settled st + total (cache st')"
proof -
  let ?s = "IncrementTotal (length (transitiveDependencies pwd)) st"
  have 1: "\<forall>c\<in>set (transitiveDependencies pwd). GetMap (cache ?s) (GetId c) \<noteq> None \<and>
               transitiveDependencies c = []"
    using ch by (simp add: IncrementTotal_def)
  have "settled ?s = settled st"
    "total (cache ?s) = total (cache st) + length (transitiveDependencies pwd)"
    by (simp_all add: settled_def IncrementTotal_def)
  with populateLoop_balanced [OF rb re 1] run show ?thesis
    by (simp add: populateTransitive_def)
qed


lemma publishDependencyAndPopulateTransitive_balanced:
  assumes rb: "rec_balanced rec" and re: "rec_evolves rec"
    and nil: "transitiveDependencies pwd = []"
    and run: "publishDependencyAndPopulateTransitive rec ext path targetRepo es pwd st = Normal (e, pwd', st')"
  shows "settled st' + total (cache st)
           = settled st + total (cache st') +
             (if published_in (snd (expandGraph ext path targetRepo es pwd st)) (GetId pwd) then 0 else 1)"
proof -
  obtain pwd1 st1 where ex: "expandGraph ext path targetRepo es pwd st = (pwd1, st1)"
    by (cases "expandGraph ext path targetRepo es pwd st")
  obtain ds where pwd1: "pwd1 = set_transitiveDependencies ds pwd"
    using expandGraph_node [of ext path targetRepo es pwd st] ex by auto
  have id1: "GetId pwd1 = GetId pwd"
    by (simp add: pwd1)
  have c1: "total (cache st1) = total (cache st)" "settled st1 = settled st"
    using counters_expandGraph [of ext path targetRepo es pwd st] ex by simp_all
  have ch: "\<forall>c\<in>set (transitiveDependencies pwd1). GetMap (cache st1) (GetId c) \<noteq> None \<and>
              transitiveDependencies c = []"
    using expandGraph_children [OF nil, of ext path targetRepo es st] ex by simp
  from run ex obtain st2 st3 pwd2 st4 where
    s2: "persistToGoCache ext (published_in st1 (GetId pwd1)) pwd1 st1 = Normal st2"
    and s3: "(if transitiveDependencies pwd1 \<noteq> [] then populateTransitive rec pwd1 st2
              else Normal st2) = Normal st3"
    and s4: "(if \<not> published_in st1 (GetId pwd1) \<and> shouldRevertToEmptyMod pwd1
              then revertToOriginalMod ext path pwd1 st3 else Normal (pwd1, st3)) = Normal (pwd2, st4)"
    and s5: "st' = removeWorkspace ext path
               (publishUnlessPublished ext targetRepo (published_in st1 (GetId pwd1)) pwd2 st4)"
    by (auto simp add: publishDependencyAndPopulateTransitive_def Let_def bind_eq_Normal)
  have c2: "cache st2 = cache st1"
    using cache_persistToGoCache [OF s2] .
  have b3: "settled st3 + total (cache st2) = settled st2 + total (cache st3)"
  proof (cases "transitiveDependencies pwd1 = []")
    case True
    with s3 show ?thesis by simp
  next
    case False
    with s3 have "populateTransitive rec pwd1 st2 = Normal st3"
      by simp
    moreover have "\<forall>c\<in>set (transitiveDependencies pwd1). GetMap (cache st2) (GetId c) \<noteq> None \<and>
              transitiveDependencies c = []"
      using ch by (simp add: c2)
    ultimately show ?thesis
      by (intro populateTransitive_balanced [OF rb re])
  qed
  have c4: "cache st4 = cache st3"
    using s4 by (auto split: if_splits dest: cache_revertToOriginalMod)
  have "settled st2 = settled st1" "settled st4 = settled st3"
    by (simp_all add: settled_def c2 c4)
  with b3 c1 c2 c4
    counters_publishUnlessPublished [of ext targetRepo "published_in st1 (GetId pwd1)" pwd2 st4]
  show ?thesis
    by (simp add: s5 ex id1 settled_def)
qed

lemma prepareAndPublishNode_balanced:
  assumes rb: "rec_balanced rec" and re: "rec_evolves rec"
    and nil: "transitiveDependencies pwd = []"
    and run: "prepareAndPublishNode rec ext targetRepo pwd st = Normal (e, pwd', st')"
  shows "\<exists>own. settled st' + total (cache st) = settled st + total (cache st') + own \<and> own \<le> 1 \<and>
           (GetMap (cache st) (GetId pwd) = Some False \<longrightarrow> own = 1) \<and>
           (published_in st (GetId pwd) \<longrightarrow> own = 0)"
proof -
  define st2 where "st2 = log_Debug [''Dependency '' @ GetId pwd @ '' mod file is empty: ''
                    @ (if \<not> PatternMatched pwd (GetNotEmptyModRegex (regExp pwd))
                       then ''true'' else ''false'')] st"
  obtain path outp err pwd2 st3 where
    c: "createDependencyAndPrepareMod ext pwd st2 = ((path, outp, err), pwd2, st3)"
    by (metis prod_cases3)
  define s3 where "s3 = logError err st3"
  have "cache st2 = cache st"
    by (simp add: st2_def)
  with cache_createDependencyAndPrepareMod [of ext pwd st2] c have c3: "cache s3 = cache st"
    by (simp add: s3_def)
  have id2: "GetId pwd2 = GetId pwd" and nil2: "transitiveDependencies pwd2 = []"
    using GetId_createDependencyAndPrepareMod [of ext pwd st2]
      transitiveDependencies_createDependencyAndPrepareMod [of ext pwd st2] c nil
    by simp_all
  from run c obtain e' where
    p: "publishDependencyAndPopulateTransitive rec ext path targetRepo outp pwd2 s3 = Normal (e', pwd', st')"
    unfolding prepareAndPublishNode_def st2_def [symmetric] Let_def s3_def
    by (auto simp add: bind_eq_Normal)
  let ?s4 = "snd (expandGraph ext path targetRepo outp pwd2 s3)"
  let ?own = "if published_in ?s4 (GetId pwd2) then 0 else 1 :: nat"
  from publishDependencyAndPopulateTransitive_balanced [OF rb re nil2 p]
  have b: "settled st' + total (cache st) = settled st + total (cache st') + ?own"
    by (simp add: c3 settled_def)
  have f: "GetMap (cache st) (GetId pwd) = Some False \<longrightarrow> ?own = 1"
  proof
    assume a: "GetMap (cache st) (GetId pwd) = Some False"
    then have "GetMap (cache s3) (GetId pwd) \<noteq> None"
      by (simp add: c3)
    from expandGraph_keeps_entries [OF this, of ext path targetRepo outp pwd2] a
    have "GetMap (cache ?s4) (GetId pwd) = Some False"
      by (simp add: c3)
    then show "?own = 1"
      by (simp add: published_in_def id2)
  qed
  have "evolves s3 ?s4"
    by simp
  then have t: "published_in st (GetId pwd) \<longrightarrow> ?own = 0"
    by (auto simp add: evolves_def c3 id2 published_in_def split: option.splits)
  from b f t show ?thesis
    by (intro exI [of _ ?own]) simp
qed


lemma counters_overwriteModFromArtifactory:
  assumes "overwriteModFromArtifactory ext targetRepo pwd st = Normal (pwd', st')"
  shows "total (cache st') = total (cache st) \<and> GetMap (cache st') = GetMap (cache st) \<and>
         settled st \<le> settled st' \<and> settled st' \<le> settled st + 1"
  using assms
  by (auto simp add: overwriteModFromArtifactory_def updateModContent_def Let_def case_prod_beta
      settled_def IncrementFailures_def split: if_splits option.splits)

lemma PopulateModAndPublish_body_balanced:
  assumes rb: "rec_balanced rec" and re: "rec_evolves rec"
    and nil: "transitiveDependencies pwd = []"
    and run: "PopulateModAndPublish_body rec ext targetRepo pwd st = Normal (e, pwd', st')"
  shows "\<exists>own. settled st' + total (cache st) = settled st + total (cache st') + own \<and> own \<le> 1 \<and>
           (GetMap (cache st) (GetId pwd) = Some False \<longrightarrow> own = 1)"
proof -
  let ?st0 = "log_Debug [''Starting to work on'', GetId pwd] st"
  have s0: "settled ?st0 = settled st" "cache ?st0 = cache st"
    by (simp_all add: settled_def)
  from run obtain pwd1 st1 where
    r: "(if published_in ?st0 (GetId pwd) then overwriteModFromArtifactory ext targetRepo pwd ?st0
         else Normal (pwd, ?st0)) = Normal (pwd1, st1)"
    and n: "prepareAndPublishNode rec ext targetRepo pwd1 st1 = Normal (e, pwd', st')"
    by (auto simp add: PopulateModAndPublish_body_def Let_def bind_eq_Normal)
  show ?thesis
  proof (cases "published_in ?st0 (GetId pwd)")
    case True
    with r have o: "overwriteModFromArtifactory ext targetRepo pwd ?st0 = Normal (pwd1, st1)"
      by simp
    have id1: "GetId pwd1 = GetId pwd" and nil1: "transitiveDependencies pwd1 = []"
      using GetId_overwriteModFromArtifactory [OF o]
        transitiveDependencies_overwriteModFromArtifactory [OF o] nil by simp_all
    from counters_overwriteModFromArtifactory [OF o] s0
    have c: "total (cache st1) = total (cache st)" "GetMap (cache st1) = GetMap (cache st)"
      "settled st \<le> settled st1" "settled st1 \<le> settled st + 1"
      by simp_all
    have "published_in st1 (GetId pwd1)"
      using True c(2) by (simp add: published_in_def id1)
    with prepareAndPublishNode_balanced [OF rb re nil1 n]
    have "settled st' + total (cache st1) = settled st1 + total (cache st')"
      by auto
    with c have "settled st' + total (cache st) = settled st + total (cache st') + (settled st1 - settled st)"
      "settled st1 - settled st \<le> 1"
      by simp_all
    moreover have "GetMap (cache st) (GetId pwd) \<noteq> Some False"
      using True by (auto simp add: published_in_def)
    ultimately show ?thesis
      by blast
  next
    case False
    with r have "pwd1 = pwd" "st1 = ?st0"
      by auto
    with prepareAndPublishNode_balanced [OF rb re nil, of ext targetRepo ?st0 e pwd' st'] n s0
    show ?thesis
      by auto
  qed
qed

lemma rec_balanced_PopulateModAndPublish: "rec_balanced (PopulateModAndPublish n ext targetRepo)"
proof (induction n)
  case 0
  show ?case by (simp add: rec_balanced_def)
next
  case (Suc n)
  show ?case
    unfolding rec_balanced_def
  proof (intro allI impI)
    fix c s e p s'
    assume a: "GetMap (cache s) (GetId c) = Some False \<and> transitiveDependencies c = [] \<and>
               PopulateModAndPublish (Suc n) ext targetRepo c s = Normal (e, p, s')"
    then have "PopulateModAndPublish_body (PopulateModAndPublish n ext targetRepo) ext targetRepo c s
                 = Normal (e, p, s')"
      by simp
    from PopulateModAndPublish_body_balanced [OF Suc rec_evolves_PopulateModAndPublish _ this] a
    show "settled s' + total (cache s) = settled s + total (cache s') + 1"
      by auto
  qed
qed

lemma PopulateModAndPublish_balanced:
  assumes run: "PopulateModAndPublish n ext targetRepo pwd st = Normal (e, pwd', st')"
    and nil: "transitiveDependencies pwd = []"
  shows "\<exists>own. settled st' + total (cache st) = settled st + total (cache st') + own \<and> own \<le> 1 \<and>
           (GetMap (cache st) (GetId pwd) = Some False \<longrightarrow> own = 1)"
proof (cases n)
  case 0
  with run show ?thesis by simp
next
  case (Suc m)
  with run have "PopulateModAndPublish_body (PopulateModAndPublish m ext targetRepo) ext targetRepo pwd st
                   = Normal (e, pwd', st')"
    by simp
  from PopulateModAndPublish_body_balanced
    [OF rec_balanced_PopulateModAndPublish rec_evolves_PopulateModAndPublish nil this]
  show ?thesis .
qed


lemma skipped_simps [simp]:
  "skipped [] = 0"
  "skipped (a @ b) = skipped a + skipped b"
  "skipped (ev # t) = (if is_skip ev then 1 else 0) + skipped t"
  by (simp_all add: skipped_def)

lemma skipped_logError [simp]: "skipped (trace (logError err st)) = skipped (trace st)"
  by (simp add: logError_def split: option.split)

lemma skipped_writeModContentToModFile [simp]:
  "skipped (trace (snd (writeModContentToModFile ext path c st))) = skipped (trace st)"
  by (simp add: writeModContentToModFile_def)

lemma skipped_updateModContent [simp]:
  "skipped (trace (snd (snd (updateModContent ext path pwd st)))) = skipped (trace st)"
  by (simp add: updateModContent_def case_prod_beta IncrementFailures_def split: option.split)

lemma skipped_getModPathAndUnzipDependency [simp]:
  "skipped (trace (snd (getModPathAndUnzipDependency ext path pwd st))) = skipped (trace st)"
  by (simp add: getModPathAndUnzipDependency_def case_prod_beta split: option.split)

lemma skipped_useCachedMod [simp]:
  "skipped (trace (snd (useCachedMod ext path pwd st))) = skipped (trace st)"
  by (simp add: useCachedMod_def case_prod_beta Let_def split: option.split)

lemma skipped_prepareAndRunInit [simp]:
  "skipped (trace (snd (prepareAndRunInit ext path pwd st))) = skipped (trace st)"
  by (simp add: prepareAndRunInit_def case_prod_beta Let_def split: option.split)

lemma skipped_prepareUnpublishedDependency [simp]:
  "skipped (trace (snd (snd (prepareUnpublishedDependency ext path o0 pwd st)))) = skipped (trace st)"
  by (simp add: prepareUnpublishedDependency_def case_prod_beta Let_def split: option.split)

lemma skipped_createDependencyAndPrepareMod [simp]:
  "skipped (trace (snd (snd (createDependencyAndPrepareMod ext pwd st)))) = skipped (trace st)"
  by (simp add: createDependencyAndPrepareMod_def case_prod_beta Let_def split: option.split)

lemma skipped_writeModContentToGoCache:
  "writeModContentToGoCache ext pwd st = Normal (err, st') \<Longrightarrow> skipped (trace st') = skipped (trace st)"
  by (auto simp add: writeModContentToGoCache_def bind_eq_Normal dest!: extcall_eqD)

lemma skipped_persistToGoCache:
  "persistToGoCache ext published pwd st = Normal st' \<Longrightarrow> skipped (trace st') = skipped (trace st)"
  by (auto simp add: persistToGoCache_def bind_eq_Normal split: if_splits
      dest: skipped_writeModContentToGoCache)

lemma skipped_revertToOriginalMod:
  "revertToOriginalMod ext path pwd st = Normal (pwd', st') \<Longrightarrow> skipped (trace st') = skipped (trace st)"
  by (auto simp add: revertToOriginalMod_def Let_def bind_eq_Normal case_prod_beta
      dest!: skipped_writeModContentToGoCache)

lemma skipped_publishUnlessPublished [simp]:
  "skipped (trace (publishUnlessPublished ext targetRepo published pwd st)) = skipped (trace st)"
  by (simp add: publishUnlessPublished_def prepareAndPublish_def Package_prepareAndPublish_def
      case_prod_beta map_store_def IncrementFailures_def IncrementSuccess_def split: option.split)

lemma skipped_removeWorkspace [simp]:
  "skipped (trace (removeWorkspace ext path st)) = skipped (trace st)"
  by (simp add: removeWorkspace_def case_prod_beta split: option.split)

lemma skipped_transitiveStep [simp]:
  "skipped (trace (snd (transitiveStep ext targetRepo pwd e acc))) = skipped (trace (snd acc))"
  by (cases acc)
    (auto simp add: transitiveStep_def Let_def extcall_def logError_def log_Error_def log_Debug_def
      emit_def map_store_def split: option.splits prod.splits if_splits)

lemma skipped_fold_transitiveStep [simp]:
  "skipped (trace (snd (fold (transitiveStep ext targetRepo pwd) es acc))) = skipped (trace (snd acc))"
  by (induction es arbitrary: acc) simp_all

lemma skipped_expandGraph [simp]:
  "skipped (trace (snd (expandGraph ext path targetRepo es pwd st))) = skipped (trace st)"
  by (simp add: expandGraph_def setTransitiveDependencies_def case_prod_beta)

lemma skipped_overwriteModFromArtifactory:
  "overwriteModFromArtifactory ext targetRepo pwd st = Normal (pwd', st') \<Longrightarrow>
     skipped (trace st') = skipped (trace st)"
  by (auto simp add: overwriteModFromArtifactory_def Let_def case_prod_beta split: if_splits)

lemma skips_counted_step:
  "skipped (trace st') = skipped (trace st) \<Longrightarrow> evolves st st' \<Longrightarrow> skips_counted st st'"
  by (simp add: skips_counted_def evolves_def)

lemma skips_counted_trans:
  "skips_counted a b \<Longrightarrow> skips_counted b c \<Longrightarrow> skips_counted a c"
  by (simp add: skips_counted_def)

lemma populateLoop_skips:
  assumes rs: "rec_skips rec"
  shows "populateLoop rec cs st = Normal st' \<Longrightarrow> skips_counted st st'"
proof (induction cs arbitrary: st)
  case Nil
  then show ?case by (simp add: skips_counted_def)
next
  case (Cons c cs)
  show ?case
  proof (cases "published_in st (GetId c)")
    case True
    let ?s = "log_Debug [''The dependency'', GetId c, ''was already handled''] (IncrementSuccess st)"
    from Cons.prems True have "populateLoop rec cs ?s = Normal st'"
      by simp
    from Cons.IH [OF this] show ?thesis
      by (simp add: skips_counted_def IncrementSuccess_def)
  next
    case False
    let ?s = "log_Debug [''Starting to work on transitive dependency:'', GetId c] st"
    from Cons.prems False obtain e p s1 where
      r: "rec c ?s = Normal (e, p, s1)" and l: "populateLoop rec cs s1 = Normal st'"
      by (auto simp add: bind_eq_Normal)
    from rs r have "skips_counted ?s s1"
      unfolding rec_skips_def by blast
    with Cons.IH [OF l] show ?thesis
      by (simp add: skips_counted_def)
  qed
qed

lemma publishDependencyAndPopulateTransitive_skips:
  assumes rs: "rec_skips rec"
    and run: "publishDependencyAndPopulateTransitive rec ext path targetRepo es pwd st = Normal (e, pwd', st')"
  shows "skips_counted st st'"
proof -
  obtain pwd1 st1 where ex: "expandGraph ext path targetRepo es pwd st = (pwd1, st1)"
    by (cases "expandGraph ext path targetRepo es pwd st")
  from run ex obtain st2 st3 pwd2 st4 where
    s2: "persistToGoCache ext (published_in st1 (GetId pwd1)) pwd1 st1 = Normal st2"
    and s3: "(if transitiveDependencies pwd1 \<noteq> [] then populateTransitive rec pwd1 st2
              else Normal st2) = Normal st3"
    and s4: "(if \<not> published_in st1 (GetId pwd1) \<and> shouldRevertToEmptyMod pwd1
              then revertToOriginalMod ext path pwd1 st3 else Normal (pwd1, st3)) = Normal (pwd2, st4)"
    and s5: "st' = removeWorkspace ext path
               (publishUnlessPublished ext targetRepo (published_in st1 (GetId pwd1)) pwd2 st4)"
    by (auto simp add: publishDependencyAndPopulateTransitive_def Let_def bind_eq_Normal)
  have k1: "skipped (trace st1) = skipped (trace st)" "successes (cache st1) = successes (cache st)"
    using skipped_expandGraph [of ext path targetRepo es pwd st]
      counters_expandGraph [of ext path targetRepo es pwd st] ex
    by simp_all
  have k2: "skipped (trace st2) = skipped (trace st1)" "cache st2 = cache st1"
    using skipped_persistToGoCache [OF s2] cache_persistToGoCache [OF s2] by simp_all
  have k3: "skips_counted st2 st3"
  proof (cases "transitiveDependencies pwd1 = []")
    case True
    with s3 show ?thesis by (simp add: skips_counted_def)
  next
    case False
    with s3 have "populateLoop rec (transitiveDependencies pwd1)
                    (IncrementTotal (length (transitiveDependencies pwd1)) st2) = Normal st3"
      by (simp add: populateTransitive_def)
    from populateLoop_skips [OF rs this] show ?thesis
      by (simp add: skips_counted_def IncrementTotal_def)
  qed
  have k4: "skipped (trace st4) = skipped (trace st3)" "cache st4 = cache st3"
    using s4 by (auto split: if_splits dest: skipped_revertToOriginalMod cache_revertToOriginalMod)
  have "evolves st4 (publishUnlessPublished ext targetRepo (published_in st1 (GetId pwd1)) pwd2 st4)"
    by simp
  then have k5: "successes (cache st4) \<le> successes (cache st')"
    by (simp add: s5 evolves_def)
  have "skipped (trace st') = skipped (trace st4)"
    by (simp add: s5)
  with k1 k2 k3 k4 k5 show ?thesis
    by (simp add: skips_counted_def)
qed

lemma PopulateModAndPublish_body_skips:
  assumes rs: "rec_skips rec"
    and run: "PopulateModAndPublish_body rec ext targetRepo pwd st = Normal (e, pwd', st')"
  shows "skips_counted st st'"
proof -
  let ?st0 = "log_Debug [''Starting to work on'', GetId pwd] st"
  from run obtain pwd1 st1 where
    r: "(if published_in ?st0 (GetId pwd) then overwriteModFromArtifactory ext targetRepo pwd ?st0
         else Normal (pwd, ?st0)) = Normal (pwd1, st1)"
    and n: "prepareAndPublishNode rec ext targetRepo pwd1 st1 = Normal (e, pwd', st')"
    by (auto simp add: PopulateModAndPublish_body_def Let_def bind_eq_Normal)
  have "skipped (trace st1) = skipped (trace ?st0)"
    using r by (auto split: if_splits dest: skipped_overwriteModFromArtifactory)
  moreover have "evolves st st1"
    using r by (auto split: if_splits dest: evolves_overwriteModFromArtifactory [where a = st])
  ultimately have a: "skips_counted st st1"
    by (intro skips_counted_step) simp_all
  define st2 where "st2 = log_Debug [''Dependency '' @ GetId pwd1 @ '' mod file is empty: ''
                    @ (if \<not> PatternMatched pwd1 (GetNotEmptyModRegex (regExp pwd1))
                       then ''true'' else ''false'')] st1"
  obtain path outp err pwd2 st3 where
    c: "createDependencyAndPrepareMod ext pwd1 st2 = ((path, outp, err), pwd2, st3)"
    by (metis prod_cases3)
  have "skipped (trace st2) = skipped (trace st1)" "cache st2 = cache st1"
    by (simp_all add: st2_def)
  with skipped_createDependencyAndPrepareMod [of ext pwd1 st2]
    cache_createDependencyAndPrepareMod [of ext pwd1 st2] c
  have b: "skipped (trace (logError err st3)) = skipped (trace st1)"
    "cache (logError err st3) = cache st1"
    by simp_all
  from n c obtain e' where
    "publishDependencyAndPopulateTransitive rec ext path targetRepo outp pwd2 (logError err st3)
       = Normal (e', pwd', st')"
    unfolding prepareAndPublishNode_def st2_def [symmetric] Let_def
    by (auto simp add: bind_eq_Normal)
  from publishDependencyAndPopulateTransitive_skips [OF rs this] b
  have "skips_counted st1 st'"
    by (simp add: skips_counted_def)
  with a show ?thesis
    by (rule skips_counted_trans)
qed

lemma rec_skips_PopulateModAndPublish: "rec_skips (PopulateModAndPublish n ext targetRepo)"
proof (induction n)
  case 0
  show ?case by (simp add: rec_skips_def)
next
  case (Suc n)
  show ?case
    unfolding rec_skips_def
  proof (intro allI impI)
    fix c s e p s'
    assume "PopulateModAndPublish (Suc n) ext targetRepo c s = Normal (e, p, s')"
    then have "PopulateModAndPublish_body (PopulateModAndPublish n ext targetRepo) ext targetRepo c s
                 = Normal (e, p, s')"
      by simp
    from PopulateModAndPublish_body_skips [OF Suc this]
    show "skips_counted s s'" .
  qed
qed


section \<open>The claims\<close>

text \<open>
  C1 (as amended). The publish step of a node (lines 274-278) sets the cache entry of the
  package's ID to true right after the publish call has returned, whether the call returned
  success or an error: the entry after the step is true, the error handed back is the one the
  repository gave, and the publish call is the last thing that happened.
\<close>

theorem prepareAndPublish_marks_after_any_outcome:
  "GetMap (cache (snd (prepareAndPublish ext targetRepo pwd st))) (GetId pwd) = Some True \<and>
   fst (prepareAndPublish ext targetRepo pwd st)
     = fst (publish ext targetRepo (Dependency pwd) (world st)) \<and>
   trace (snd (prepareAndPublish ext targetRepo pwd st))
     = trace st @ [Call_Publish targetRepo (Dependency pwd)]"
  by (simp add: prepareAndPublish_def Package_prepareAndPublish_def extcall_def map_store_def
      IncrementFailures_def IncrementSuccess_def split: prod.split option.split)

theorem prepareAndPublish_marks_after_any_outcome_witness:
  "GetMap (cache (snd (prepareAndPublish ext_ok ''repo'' root_foo st_fresh))) ''example.com/foo:v1.0.0'' = Some True \<and>
   fst (prepareAndPublish ext_ok ''repo'' root_foo st_fresh) = None"
  using prepareAndPublish_marks_after_any_outcome [of ext_ok "''repo''" root_foo st_fresh]
  by (simp add: GetId_def example_defs)

text \<open>
  C1 as stated fails: when the repository refuses the publish, the error comes back and the
  entry is marked published all the same.
\<close>

theorem marked_published_after_failed_publish:
  "fst (prepareAndPublish ext_publish_fails ''repo'' root_foo st_fresh) = Some ''503 Service Unavailable'' \<and>
   GetMap (cache (snd (prepareAndPublish ext_publish_fails ''repo'' root_foo st_fresh))) (GetId root_foo)
     = Some True"
  by (simp add: model_defs example_defs)

text \<open>
  C5. An edge that does not split at \<^verbatim>\<open>@\<close> into exactly two parts is skipped: the step of the
  expansion for it changes neither the children collected so far nor the state (no child, no
  cache access, nothing logged), and expanding a graph gives the same children and the
  same state as expanding its well-formed edges alone. The expansion has no error result.
  The other edges of the graph are still processed: a well-formed edge with malformed edges
  before and after it, whose key the cache does not have and whose package the local module
  cache provides, gives the node exactly its child, and the cache records the child's key
  with the answer of the existence probe.
\<close>

theorem malformed_edge_skipped:
  "(\<not> wellformed_edge e \<longrightarrow> transitiveStep ext targetRepo pwd e acc = acc) \<and>
   setTransitiveDependencies ext targetRepo graphDependencies pwd st
     = setTransitiveDependencies ext targetRepo (filter wellformed_edge graphDependencies) pwd st \<and>
   ((\<forall>x\<in>set before. \<not> wellformed_edge x) \<and> (\<forall>x\<in>set after. \<not> wellformed_edge x) \<and>
    wellformed_edge good \<and> GetMap (cache st) (child_key ext good) = None \<and>
    createDependency ext (cachePath pwd) (getDependencyName ext (Split good CHR ''@'' ! 0))
      (Split good CHR ''@'' ! 1) (world st) = ((Some cz, None), w1) \<and>
    shouldDownloadFromArtifactory ext (Split good CHR ''@'' ! 0) (Split good CHR ''@'' ! 1) targetRepo w1
      = ((b, None), w2) \<longrightarrow>
      transitiveDependencies
          (fst (setTransitiveDependencies ext targetRepo (before @ good # after) pwd st))
        = [PackageWithDeps
             (new_Package (getDependencyName ext (Split good CHR ''@'' ! 0)) (Split good CHR ''@'' ! 1) cz)
             [] (regExp pwd) False False (TidyEnum pwd) (cachePath pwd) (GoModEditMessage pwd) []] \<and>
      GetMap (cache (snd (setTransitiveDependencies ext targetRepo (before @ good # after) pwd st)))
        = (GetMap (cache st))(child_key ext good \<mapsto> b))"
proof (intro conjI impI)
  show skip: "\<not> wellformed_edge e \<Longrightarrow> transitiveStep ext targetRepo pwd e acc = acc" for e acc
    by (cases acc) (simp add: transitiveStep_def wellformed_edge_def Let_def)
  have "fold (transitiveStep ext targetRepo pwd) es acc
          = fold (transitiveStep ext targetRepo pwd) (filter wellformed_edge es) acc" for es acc
    by (induction es arbitrary: acc) (simp_all add: skip)
  then show "setTransitiveDependencies ext targetRepo graphDependencies pwd st
     = setTransitiveDependencies ext targetRepo (filter wellformed_edge graphDependencies) pwd st"
    by (simp add: setTransitiveDependencies_def)
  have none: "fold (transitiveStep ext targetRepo pwd) es acc = acc"
    if "\<forall>x\<in>set es. \<not> wellformed_edge x" for es acc
    using that by (induction es arbitrary: acc) (simp_all add: skip)
  assume h: "(\<forall>x\<in>set before. \<not> wellformed_edge x) \<and> (\<forall>x\<in>set after. \<not> wellformed_edge x) \<and>
    wellformed_edge good \<and> GetMap (cache st) (child_key ext good) = None \<and>
    createDependency ext (cachePath pwd) (getDependencyName ext (Split good CHR ''@'' ! 0))
      (Split good CHR ''@'' ! 1) (world st) = ((Some cz, None), w1) \<and>
    shouldDownloadFromArtifactory ext (Split good CHR ''@'' ! 0) (Split good CHR ''@'' ! 1) targetRepo w1
      = ((b, None), w2)"
  then have run: "fold (transitiveStep ext targetRepo pwd) (before @ good # after) ([], st)
          = transitiveStep ext targetRepo pwd good ([], st)"
    by (simp add: none)
  from h have step:
    "fst (transitiveStep ext targetRepo pwd good ([], st))
       = [PackageWithDeps
            (new_Package (getDependencyName ext (Split good CHR ''@'' ! 0)) (Split good CHR ''@'' ! 1) cz)
            [] (regExp pwd) False False (TidyEnum pwd) (cachePath pwd) (GoModEditMessage pwd) []]"
    "GetMap (cache (snd (transitiveStep ext targetRepo pwd good ([], st))))
       = (GetMap (cache st))(child_key ext good \<mapsto> b)"
    by (simp_all add: transitiveStep_def wellformed_edge_def child_key_def Let_def extcall_def
        logError_def log_Debug_def emit_def map_store_def)
  from run step show "transitiveDependencies
          (fst (setTransitiveDependencies ext targetRepo (before @ good # after) pwd st))
        = [PackageWithDeps
             (new_Package (getDependencyName ext (Split good CHR ''@'' ! 0)) (Split good CHR ''@'' ! 1) cz)
             [] (regExp pwd) False False (TidyEnum pwd) (cachePath pwd) (GoModEditMessage pwd) []]"
    by (cases pwd) (simp add: setTransitiveDependencies_def case_prod_beta)
  from run step show "GetMap (cache (snd (setTransitiveDependencies ext targetRepo (before @ good # after) pwd st)))
        = (GetMap (cache st))(child_key ext good \<mapsto> b)"
    by (simp add: setTransitiveDependencies_def case_prod_beta)
qed

theorem malformed_edge_skipped_witness:
  "\<not> wellformed_edge ''badedge'' \<and> \<not> wellformed_edge ''a@b@c'' \<and>
   wellformed_edge ''example.com/bar@v2.0.0'' \<and>
   transitiveStep ext_ok ''repo'' root_foo ''badedge'' ([], st_fresh) = ([], st_fresh) \<and>
   filter wellformed_edge [''badedge'', ''example.com/bar@v2.0.0'', ''a@b@c''] = [''example.com/bar@v2.0.0''] \<and>
   setTransitiveDependencies ext_ok ''repo'' [''badedge'', ''example.com/bar@v2.0.0'', ''a@b@c''] root_foo st_fresh
     = setTransitiveDependencies ext_ok ''repo'' [''example.com/bar@v2.0.0''] root_foo st_fresh \<and>
   map GetId (transitiveDependencies
       (fst (setTransitiveDependencies ext_ok ''repo''
               [''badedge'', ''example.com/bar@v2.0.0'', ''a@b@c''] root_foo st_fresh)))
     = [''example.com/bar:v2.0.0''] \<and>
   GetMap (cache (snd (setTransitiveDependencies ext_ok ''repo''
               [''badedge'', ''example.com/bar@v2.0.0'', ''a@b@c''] root_foo st_fresh)))
     = [''example.com/bar:v2.0.0'' \<mapsto> False]"
proof -
  have w: "\<not> wellformed_edge ''badedge''" "\<not> wellformed_edge ''a@b@c''"
    "wellformed_edge ''example.com/bar@v2.0.0''"
    by (simp_all add: wellformed_edge_def)
  have b: "\<forall>x\<in>set [''badedge'']. \<not> wellformed_edge x" "\<forall>x\<in>set [''a@b@c'']. \<not> wellformed_edge x"
    using w by simp_all
  have f: "filter wellformed_edge [''badedge'', ''example.com/bar@v2.0.0'', ''a@b@c'']
             = [''example.com/bar@v2.0.0'']"
    by (simp add: wellformed_edge_def)
  have k: "child_key ext_ok ''example.com/bar@v2.0.0'' = ''example.com/bar:v2.0.0''"
    "GetMap (cache st_fresh) (child_key ext_ok ''example.com/bar@v2.0.0'') = None"
    "GetMap (cache st_fresh) = Map.empty"
    by (simp_all add: child_key_def example_defs)
  have c: "createDependency ext_ok (cachePath root_foo)
             (getDependencyName ext_ok (Split ''example.com/bar@v2.0.0'' CHR ''@'' ! 0))
             (Split ''example.com/bar@v2.0.0'' CHR ''@'' ! 1) (world st_fresh)
           = ((Some (''require x'', ''/zip/bar''), None), 0)"
    "shouldDownloadFromArtifactory ext_ok (Split ''example.com/bar@v2.0.0'' CHR ''@'' ! 0)
       (Split ''example.com/bar@v2.0.0'' CHR ''@'' ! 1) ''repo'' 0 = ((False, None), 0)"
    by (simp_all add: example_defs)
  have i: "GetId (PackageWithDeps
             (new_Package (getDependencyName ext_ok (Split ''example.com/bar@v2.0.0'' CHR ''@'' ! 0))
                (Split ''example.com/bar@v2.0.0'' CHR ''@'' ! 1) (''require x'', ''/zip/bar''))
             [] (regExp root_foo) False False (TidyEnum root_foo) (cachePath root_foo)
             (GoModEditMessage root_foo) []) = ''example.com/bar:v2.0.0''"
    by (simp add: GetId_def new_Package_def example_defs)
  note T = malformed_edge_skipped [where e = "''badedge''" and ext = ext_ok and targetRepo = "''repo''"
      and pwd = root_foo and acc = "([], st_fresh)"
      and graphDependencies = "[''badedge'', ''example.com/bar@v2.0.0'', ''a@b@c'']" and st = st_fresh
      and before = "[''badedge'']" and after = "[''a@b@c'']" and good = "''example.com/bar@v2.0.0''"
      and cz = "(''require x'', ''/zip/bar'')" and ?w1.0 = 0 and b = False and ?w2.0 = 0]
  from T w have A: "transitiveStep ext_ok ''repo'' root_foo ''badedge'' ([], st_fresh) = ([], st_fresh)"
    by blast
  from T have "setTransitiveDependencies ext_ok ''repo'' [''badedge'', ''example.com/bar@v2.0.0'', ''a@b@c'']
        root_foo st_fresh
      = setTransitiveDependencies ext_ok ''repo''
          (filter wellformed_edge [''badedge'', ''example.com/bar@v2.0.0'', ''a@b@c'']) root_foo st_fresh"
    by blast
  then have B: "setTransitiveDependencies ext_ok ''repo'' [''badedge'', ''example.com/bar@v2.0.0'', ''a@b@c'']
        root_foo st_fresh
      = setTransitiveDependencies ext_ok ''repo'' [''example.com/bar@v2.0.0''] root_foo st_fresh"
    by (simp only: f)
  from T [THEN conjunct2, THEN conjunct2, THEN mp] w b k(2) c
  have C: "transitiveDependencies
          (fst (setTransitiveDependencies ext_ok ''repo''
                  ([''badedge''] @ ''example.com/bar@v2.0.0'' # [''a@b@c'']) root_foo st_fresh))
        = [PackageWithDeps
             (new_Package (getDependencyName ext_ok (Split ''example.com/bar@v2.0.0'' CHR ''@'' ! 0))
                (Split ''example.com/bar@v2.0.0'' CHR ''@'' ! 1) (''require x'', ''/zip/bar''))
             [] (regExp root_foo) False False (TidyEnum root_foo) (cachePath root_foo)
             (GoModEditMessage root_foo) []]"
    and D: "GetMap (cache (snd (setTransitiveDependencies ext_ok ''repo''
                  ([''badedge''] @ ''example.com/bar@v2.0.0'' # [''a@b@c'']) root_foo st_fresh)))
        = (GetMap (cache st_fresh))(child_key ext_ok ''example.com/bar@v2.0.0'' \<mapsto> False)"
    by blast+
  have l: "[''badedge''] @ ''example.com/bar@v2.0.0'' # [''a@b@c'']
             = [''badedge'', ''example.com/bar@v2.0.0'', ''a@b@c'']"
    by simp
  have C': "map GetId (transitiveDependencies
       (fst (setTransitiveDependencies ext_ok ''repo''
               [''badedge'', ''example.com/bar@v2.0.0'', ''a@b@c''] root_foo st_fresh)))
     = [''example.com/bar:v2.0.0'']"
    using C i unfolding l by simp
  have D': "GetMap (cache (snd (setTransitiveDependencies ext_ok ''repo''
               [''badedge'', ''example.com/bar@v2.0.0'', ''a@b@c''] root_foo st_fresh)))
     = [''example.com/bar:v2.0.0'' \<mapsto> False]"
    using D unfolding l k(1) k(3) .
  from w A f B C' D' show ?thesis
    by blast
qed

text \<open>
  C6. The published flag of the shared cache is monotone. Over a whole run of
  populate-and-publish a flag that is true stays true and an entry that exists is not
  removed. The two writes are the mark after the publish step, which stores true, and the
  fresh entry of the transitive expansion, which leaves every existing entry as it is.
\<close>

theorem published_flag_monotone:
  assumes "PopulateModAndPublish n ext targetRepo pwd st = Normal (e, pwd', st')"
  shows "(\<forall>k. GetMap (cache st) k = Some True \<longrightarrow> GetMap (cache st') k = Some True) \<and>
         (\<forall>k. GetMap (cache st) k \<noteq> None \<longrightarrow> GetMap (cache st') k \<noteq> None) \<and>
         GetMap (cache (snd (prepareAndPublish ext targetRepo pwd st)))
           = (GetMap (cache st))(GetId pwd \<mapsto> True) \<and>
         (\<forall>k. GetMap (cache st) k \<noteq> None \<longrightarrow>
              GetMap (cache (snd (setTransitiveDependencies ext targetRepo es pwd st))) k
                = GetMap (cache st) k)"
  using evolves_PopulateModAndPublish [OF assms] prepareAndPublish_map [of ext targetRepo pwd st]
    setTransitiveDependencies_keeps_entries [of st _ ext targetRepo es pwd]
  unfolding evolves_def by blast

theorem published_flag_monotone_witness:
  "\<exists>e p s. PopulateModAndPublish 2 ext_ok ''repo'' root_foo st_seen = Normal (e, p, s) \<and>
     GetMap (cache st_seen) ''old.org/lib:v0.1.0'' = Some True \<and>
     GetMap (cache s) ''old.org/lib:v0.1.0'' = Some True"
proof -
  have "\<exists>e p s. PopulateModAndPublish 2 ext_ok ''repo'' root_foo st_seen = Normal (e, p, s)"
    by (simp add: eval_nat_numeral Let_def model_defs example_defs)
  then obtain e p s where r: "PopulateModAndPublish 2 ext_ok ''repo'' root_foo st_seen = Normal (e, p, s)"
    by blast
  have h: "GetMap (cache st_seen) ''old.org/lib:v0.1.0'' = Some True"
    by (simp add: st_seen_def)
  from published_flag_monotone [OF r] h have "GetMap (cache s) ''old.org/lib:v0.1.0'' = Some True"
    by blast
  with r h show ?thesis by blast
qed



text \<open>
  C2. A node that took the tidy branch (revert flag set) and is not marked published when
  line 235 reads its flag ends like this: its \<^verbatim>\<open>manifestContent\<close> is \<open>X\<close>, and its last four
  external calls write \<open>X\<close> to the workspace manifest file, write \<open>X\<close> to the local module
  cache, publish the package with manifest \<open>X\<close>, and remove the workspace. \<open>X\<close> is the
  recorded snapshot, with the edit message and a blank line in front exactly when the edit
  marker pattern does not match the snapshot. For a node that enters with the flag unset,
  the snapshot recorded with the flag is the manifest content the node had before init and
  tidy ran. What tidy wrote never reaches the node: \<open>X\<close> is made of the snapshot, the
  pattern and the message.
\<close>

theorem manifest_of_record:
  assumes run: "publishDependencyAndPopulateTransitive rec ext pathToModFile targetRepo
                  graphDependencies pwd st = Normal (e, pwd', st')"
    and revert: "shouldRevertToEmptyMod pwd"
    and unpub: "\<not> published_in (snd (expandGraph ext pathToModFile targetRepo graphDependencies pwd st))
                   (GetId pwd)"
    and X: "X = (if GetGeneratedBy (regExp pwd) (originalModContent pwd) = []
                 then GoModEditMessage pwd @ [CHR 0x0A, CHR 0x0A] @ originalModContent pwd
                 else originalModContent pwd)"
  shows "GetModContent pwd' = X \<and>
         (\<exists>t gp. goCacheModPath ext pwd = Normal gp \<and>
            calls (trace st') = t @
              [Call_WriteFile pathToModFile X,
               Call_WriteFile gp X,
               Call_Publish targetRepo ((Dependency pwd)\<lparr>modContent := X\<rparr>),
               Call_RemoveAll (Dir ext pathToModFile)]) \<and>
         (\<not> shouldRevertToEmptyMod node \<and>
          shouldRevertToEmptyMod (fst (snd (createDependencyAndPrepareMod ext node s))) \<longrightarrow>
            originalModContent (fst (snd (createDependencyAndPrepareMod ext node s)))
              = GetModContent node)"
proof -
  obtain pwd1 st1 where ex: "expandGraph ext pathToModFile targetRepo graphDependencies pwd st = (pwd1, st1)"
    by (cases "expandGraph ext pathToModFile targetRepo graphDependencies pwd st")
  obtain ds where pwd1: "pwd1 = set_transitiveDependencies ds pwd"
    using expandGraph_node [of ext pathToModFile targetRepo graphDependencies pwd st] ex by auto
  have id1: "GetId pwd1 = GetId pwd" and rv1: "shouldRevertToEmptyMod pwd1"
    and gp1: "goCacheModPath ext pwd1 = goCacheModPath ext pwd"
    and X1: "revertedModContent pwd1 = X" and dep1: "Dependency pwd1 = Dependency pwd"
    using revert by (simp_all add: pwd1 goCacheModPath_def revertedModContent_def X Let_def)
  from unpub ex id1 have np: "\<not> published_in st1 (GetId pwd1)"
    by simp
  from run ex np rv1 obtain st3 pwd2 st4 where
    s4: "revertToOriginalMod ext pathToModFile pwd1 st3 = Normal (pwd2, st4)"
    and s5: "st' = removeWorkspace ext pathToModFile
               (logError (fst (prepareAndPublish ext targetRepo pwd2 st4))
                  (snd (prepareAndPublish ext targetRepo pwd2 st4)))"
    and p': "pwd' = pwd2"
    by (auto simp add: publishDependencyAndPopulateTransitive_def Let_def bind_eq_Normal
        case_prod_beta persistToGoCache_def publishUnlessPublished_def)
  from revertToOriginalMod_result [OF s4] X1 gp1 obtain gp where
    p2: "pwd2 = SetModContent X (set_originalModContent X pwd1)"
    and gp: "goCacheModPath ext pwd = Normal gp"
    and t4: "calls (trace st4) = calls (trace st3) @
               [Call_WriteFile pathToModFile X, Call_WriteFile gp X]"
    by auto
  have "calls (trace st') = calls (trace st3) @
              [Call_WriteFile pathToModFile X, Call_WriteFile gp X,
               Call_Publish targetRepo ((Dependency pwd)\<lparr>modContent := X\<rparr>),
               Call_RemoveAll (Dir ext pathToModFile)]"
    by (simp add: s5 calls_trace_removeWorkspace calls_trace_prepareAndPublish t4 p2 dep1)
  moreover have "GetModContent pwd' = X"
    by (simp add: p' p2)
  moreover have "\<not> shouldRevertToEmptyMod node \<and>
          shouldRevertToEmptyMod (fst (snd (createDependencyAndPrepareMod ext node s))) \<longrightarrow>
            originalModContent (fst (snd (createDependencyAndPrepareMod ext node s)))
              = GetModContent node"
    by (simp add: createDependencyAndPrepareMod_def prepareUnpublishedDependency_def
        case_prod_beta Let_def split: option.split)
  ultimately show ?thesis
    using gp by blast
qed

theorem manifest_of_record_witness:
  "shouldRevertToEmptyMod pwd_tidied \<and>
   \<not> published_in (snd (expandGraph ext_ok ''/tmp/w/go.mod'' ''repo'' [] pwd_tidied st_fresh)) (GetId pwd_tidied) \<and>
   \<not> shouldRevertToEmptyMod root_foo \<and>
   shouldRevertToEmptyMod (fst (snd (createDependencyAndPrepareMod ext_ok root_foo st_fresh))) \<and>
   originalModContent (fst (snd (createDependencyAndPrepareMod ext_ok root_foo st_fresh))) = GetModContent root_foo \<and>
   (\<exists>e pwd' st'.
      publishDependencyAndPopulateTransitive (PopulateModAndPublish 0 ext_ok ''repo'') ext_ok
        ''/tmp/w/go.mod'' ''repo'' [] pwd_tidied st_fresh = Normal (e, pwd', st') \<and>
      GetModContent pwd' = ''// Generated by tool'' @ [CHR 0x0A, CHR 0x0A] @ ''module example.com/foo'' \<and>
      (\<exists>t gp. goCacheModPath ext_ok pwd_tidied = Normal gp \<and>
         calls (trace st') = t @
           [Call_WriteFile ''/tmp/w/go.mod''
              (''// Generated by tool'' @ [CHR 0x0A, CHR 0x0A] @ ''module example.com/foo''),
            Call_WriteFile gp
              (''// Generated by tool'' @ [CHR 0x0A, CHR 0x0A] @ ''module example.com/foo''),
            Call_Publish ''repo''
              ((Dependency pwd_tidied)\<lparr>modContent :=
                 ''// Generated by tool'' @ [CHR 0x0A, CHR 0x0A] @ ''module example.com/foo''\<rparr>),
            Call_RemoveAll (Dir ext_ok ''/tmp/w/go.mod'')]))"
proof -
  have h1: "shouldRevertToEmptyMod pwd_tidied"
    by (simp add: example_defs)
  have h2: "\<not> published_in (snd (expandGraph ext_ok ''/tmp/w/go.mod'' ''repo'' [] pwd_tidied st_fresh))
              (GetId pwd_tidied)"
    by (simp add: expandGraph_def published_in_def example_defs)
  have h3: "\<not> shouldRevertToEmptyMod root_foo"
    by (simp add: root_foo_def)
  have h4: "shouldRevertToEmptyMod (fst (snd (createDependencyAndPrepareMod ext_ok root_foo st_fresh)))"
    by (simp add: Let_def model_defs example_defs)
  have X: "''// Generated by tool'' @ [CHR 0x0A, CHR 0x0A] @ ''module example.com/foo''
      = (if GetGeneratedBy (regExp pwd_tidied) (originalModContent pwd_tidied) = []
         then GoModEditMessage pwd_tidied @ [CHR 0x0A, CHR 0x0A] @ originalModContent pwd_tidied
         else originalModContent pwd_tidied)"
    by (simp add: example_defs)
  have "\<exists>e pwd' st'.
      publishDependencyAndPopulateTransitive (PopulateModAndPublish 0 ext_ok ''repo'') ext_ok
        ''/tmp/w/go.mod'' ''repo'' [] pwd_tidied st_fresh = Normal (e, pwd', st')"
    by (simp add: Let_def model_defs example_defs)
  then obtain e pwd' st' where run:
    "publishDependencyAndPopulateTransitive (PopulateModAndPublish 0 ext_ok ''repo'') ext_ok
        ''/tmp/w/go.mod'' ''repo'' [] pwd_tidied st_fresh = Normal (e, pwd', st')"
    by blast
  from manifest_of_record [OF run h1 h2 X, where node = root_foo and s = st_fresh] h3 h4 run h1 h2
  show ?thesis by blast
qed




text \<open>
  C4. In the transitive expansion, the step for one edge either leaves children and map as
  they are, or appends exactly one child and in the same step stores the child's ID, which
  was absent, with the answer of the existence probe as its flag; the child has the
  parent's cache path, matcher, tidy selector and edit message. After the expansion every
  child of the node is recorded in the cache. A run of populate-and-publish on a node that
  starts without children is the same run with a resolver that is asked only about children
  whose ID the cache has recorded: a child is never resolved before it is recorded.
\<close>

theorem child_recorded_before_resolution:
  "(transitiveStep ext targetRepo pwd e (deps, st) = (deps', st') \<longrightarrow>
      (deps' = deps \<and> GetMap (cache st') = GetMap (cache st)) \<or>
      (\<exists>c. deps' = deps @ [c] \<and> GetId c = child_key ext e \<and>
           GetMap (cache st) (GetId c) = None \<and>
           GetMap (cache st') = (GetMap (cache st))(GetId c \<mapsto> existence_probe ext targetRepo pwd e st) \<and>
           cachePath c = cachePath pwd \<and> regExp c = regExp pwd \<and> TidyEnum c = TidyEnum pwd \<and>
           GoModEditMessage c = GoModEditMessage pwd)) \<and>
   (\<forall>c\<in>set (transitiveDependencies (fst (setTransitiveDependencies ext targetRepo es pwd st))).
      GetMap (cache (snd (setTransitiveDependencies ext targetRepo es pwd st))) (GetId c) \<noteq> None \<and>
      shares_with c pwd) \<and>
   (transitiveDependencies pwd = [] \<longrightarrow>
      PopulateModAndPublish (Suc n) ext targetRepo pwd st
        = PopulateModAndPublish_body (recorded_only alt (PopulateModAndPublish n ext targetRepo))
            ext targetRepo pwd st)"
proof (intro conjI impI)
  assume "transitiveStep ext targetRepo pwd e (deps, st) = (deps', st')"
  from transitiveStep_cases [OF this]
  show "(deps' = deps \<and> GetMap (cache st') = GetMap (cache st)) \<or>
      (\<exists>c. deps' = deps @ [c] \<and> GetId c = child_key ext e \<and>
           GetMap (cache st) (GetId c) = None \<and>
           GetMap (cache st') = (GetMap (cache st))(GetId c \<mapsto> existence_probe ext targetRepo pwd e st) \<and>
           cachePath c = cachePath pwd \<and> regExp c = regExp pwd \<and> TidyEnum c = TidyEnum pwd \<and>
           GoModEditMessage c = GoModEditMessage pwd)"
    unfolding shares_with_def by blast
next
  show "\<forall>c\<in>set (transitiveDependencies (fst (setTransitiveDependencies ext targetRepo es pwd st))).
      GetMap (cache (snd (setTransitiveDependencies ext targetRepo es pwd st))) (GetId c) \<noteq> None \<and>
      shares_with c pwd"
    using setTransitiveDependencies_children [of ext targetRepo es pwd st] by blast
next
  assume nil: "transitiveDependencies pwd = []"
  have "PopulateModAndPublish_body (recorded_only alt (PopulateModAndPublish n ext targetRepo))
            ext targetRepo pwd st
          = PopulateModAndPublish_body (PopulateModAndPublish n ext targetRepo) ext targetRepo pwd st"
    by (rule PopulateModAndPublish_body_recorded [OF rec_evolves_PopulateModAndPublish _ nil])
      (simp add: recorded_only_def)
  then show "PopulateModAndPublish (Suc n) ext targetRepo pwd st
        = PopulateModAndPublish_body (recorded_only alt (PopulateModAndPublish n ext targetRepo))
            ext targetRepo pwd st"
    by simp
qed

theorem child_recorded_before_resolution_witness:
  "transitiveDependencies root_foo = [] \<and>
   existence_probe ext_ok ''repo'' root_foo ''example.com/bar@v2.0.0'' st_fresh = False \<and>
   child_key ext_ok ''example.com/bar@v2.0.0'' = ''example.com/bar:v2.0.0'' \<and>
   length (fst (transitiveStep ext_ok ''repo'' root_foo ''example.com/bar@v2.0.0'' ([], st_fresh))) = 1 \<and>
   GetMap (cache (snd (transitiveStep ext_ok ''repo'' root_foo ''example.com/bar@v2.0.0'' ([], st_fresh))))
     = (GetMap (cache st_fresh))(''example.com/bar:v2.0.0'' \<mapsto> False) \<and>
   PopulateModAndPublish (Suc (Suc 0)) ext_ok ''repo'' root_foo st_fresh
     = PopulateModAndPublish_body
         (recorded_only (\<lambda>c s. Panic) (PopulateModAndPublish (Suc 0) ext_ok ''repo''))
         ext_ok ''repo'' root_foo st_fresh"
proof -
  have h1: "transitiveDependencies root_foo = []"
    by (simp add: example_defs)
  have h2: "transitiveStep ext_ok ''repo'' root_foo ''example.com/bar@v2.0.0'' ([], st_fresh)
     = (fst (transitiveStep ext_ok ''repo'' root_foo ''example.com/bar@v2.0.0'' ([], st_fresh)),
        snd (transitiveStep ext_ok ''repo'' root_foo ''example.com/bar@v2.0.0'' ([], st_fresh)))"
    by simp
  have v: "existence_probe ext_ok ''repo'' root_foo ''example.com/bar@v2.0.0'' st_fresh = False"
    "child_key ext_ok ''example.com/bar@v2.0.0'' = ''example.com/bar:v2.0.0''"
    "length (fst (transitiveStep ext_ok ''repo'' root_foo ''example.com/bar@v2.0.0'' ([], st_fresh))) = 1"
    by (simp_all add: existence_probe_def child_key_def Let_def model_defs example_defs)
  from child_recorded_before_resolution [where ext = ext_ok and targetRepo = "''repo''"
      and pwd = root_foo and e = "''example.com/bar@v2.0.0''" and deps = "[]" and st = st_fresh
      and deps' = "fst (transitiveStep ext_ok ''repo'' root_foo ''example.com/bar@v2.0.0'' ([], st_fresh))"
      and st' = "snd (transitiveStep ext_ok ''repo'' root_foo ''example.com/bar@v2.0.0'' ([], st_fresh))"
      and es = "[]" and n = "Suc 0" and alt = "\<lambda>c s. Panic"] h1 h2 v
  show ?thesis
    by auto
qed

text \<open>
  C10. Populate-and-publish changes the state of the whole process. Unpacking starts by
  unsetting \<^verbatim>\<open>GOPROXY\<close>, before anything else and on every path, and unzips only when that
  went well; after a run that returns, with an \<^verbatim>\<open>Unsetenv\<close> that does not fail, the variable is
  unset whatever it was before. Using the cached manifest (non-empty manifest) and preparing
  init both change the working directory to the directory of the workspace manifest when
  \<^verbatim>\<open>Chdir\<close> succeeds; the working directory is still that directory when the preparation of
  the node ends, and the rest of the node's own work (persist, revert, publish, removal of the
  workspace) leaves the working directory where it is: nothing puts it back.
\<close>

theorem process_state_changed_and_left:
  "calls (trace (snd (getModPathAndUnzipDependency ext path pwd st)))
     = calls (trace st) @ Call_Unsetenv GOPROXY #
         (if fst (Unsetenv ext GOPROXY (world st)) = None
          then [Call_createDependencyInTemp (GetZipPath pwd)] else []) \<and>
   (PopulateModAndPublish n ext targetRepo pwd st = Normal (e, pwd', st') \<and>
    (\<forall>w. fst (Unsetenv ext GOPROXY w) = None) \<longrightarrow> env st' GOPROXY = None) \<and>
   cwd (snd (useCachedMod ext path pwd st))
     = (if fst (useCachedMod ext path pwd st) = None then Dir ext path else cwd st) \<and>
   cwd (snd (prepareAndRunInit ext path pwd st))
     = (if fst (Chdir ext (Dir ext path) (world st)) = None then Dir ext path else cwd st) \<and>
   (snd (fst (getModPathAndUnzipDependency ext [] pwd st)) = None \<and>
    (\<forall>d w. fst (Chdir ext d w) = None) \<and>
    (PatternMatched pwd (GetNotEmptyModRegex (regExp pwd)) \<or> \<not> published_in st (GetId pwd)) \<longrightarrow>
      cwd (snd (snd (createDependencyAndPrepareMod ext pwd st)))
        = Dir ext (fst (fst (getModPathAndUnzipDependency ext [] pwd st)))) \<and>
   (publishDependencyAndPopulateTransitive rec ext path targetRepo [] pwd st = Normal (e2, pwd2, st2) \<and>
    transitiveDependencies pwd = [] \<longrightarrow> cwd st2 = cwd st)"
  using unsetenv_first [of ext path pwd st] env_PopulateModAndPublish [of n ext targetRepo pwd st e pwd' st']
    cwd_useCachedMod [of ext path pwd st] cwd_prepareAndRunInit [of ext path pwd st]
    cwd_createDependencyAndPrepareMod [of ext pwd st]
    cwd_publishDependencyAndPopulateTransitive_leaf [of rec ext path targetRepo pwd st e2 pwd2 st2]
  by blast

theorem process_state_changed_and_left_witness:
  "env st_fresh GOPROXY = Some ''direct'' \<and> cwd st_fresh = ''/home'' \<and>
   (\<exists>e p s. PopulateModAndPublish 2 ext_ok ''repo'' root_foo st_fresh = Normal (e, p, s) \<and>
      env s GOPROXY = None \<and> cwd s = ''/tmp/example.com/bar@v2.0.0/go.mod/..'') \<and>
   snd (fst (getModPathAndUnzipDependency ext_ok [] root_foo st_fresh)) = None \<and>
   \<not> published_in st_fresh (GetId root_foo) \<and>
   cwd (snd (snd (createDependencyAndPrepareMod ext_ok root_foo st_fresh)))
     = ''/tmp/example.com/foo@v1.0.0/go.mod/..'' \<and>
   transitiveDependencies pwd_tidied = [] \<and>
   (\<exists>e p s. publishDependencyAndPopulateTransitive (PopulateModAndPublish 0 ext_ok ''repo'') ext_ok
        ''/tmp/w/go.mod'' ''repo'' [] pwd_tidied st_fresh = Normal (e, p, s) \<and> cwd s = ''/home'')"
proof -
  have i: "env st_fresh GOPROXY = Some ''direct''" "cwd st_fresh = ''/home''"
    by (simp_all add: GOPROXY_def example_defs)
  have "\<exists>e p s. PopulateModAndPublish 2 ext_ok ''repo'' root_foo st_fresh = Normal (e, p, s) \<and>
      cwd s = ''/tmp/example.com/bar@v2.0.0/go.mod/..''"
    by (simp add: eval_nat_numeral Let_def model_defs example_defs)
  then obtain e p s where run: "PopulateModAndPublish 2 ext_ok ''repo'' root_foo st_fresh = Normal (e, p, s)"
    and c: "cwd s = ''/tmp/example.com/bar@v2.0.0/go.mod/..''"
    by blast
  have u: "\<forall>w. fst (Unsetenv ext_ok GOPROXY w) = None" and chd: "\<forall>d w. fst (Chdir ext_ok d w) = None"
    by (simp_all add: example_defs)
  have unz: "snd (fst (getModPathAndUnzipDependency ext_ok [] root_foo st_fresh)) = None"
    and np: "\<not> published_in st_fresh (GetId root_foo)"
    and path: "Dir ext_ok (fst (fst (getModPathAndUnzipDependency ext_ok [] root_foo st_fresh)))
                = ''/tmp/example.com/foo@v1.0.0/go.mod/..''"
    and nil: "transitiveDependencies pwd_tidied = []"
    by (simp_all add: Let_def model_defs example_defs)
  have "\<exists>e p s. publishDependencyAndPopulateTransitive (PopulateModAndPublish 0 ext_ok ''repo'') ext_ok
        ''/tmp/w/go.mod'' ''repo'' [] pwd_tidied st_fresh = Normal (e, p, s)"
    by (simp add: Let_def model_defs example_defs)
  then obtain e2 p2 s2 where leaf:
    "publishDependencyAndPopulateTransitive (PopulateModAndPublish 0 ext_ok ''repo'') ext_ok
        ''/tmp/w/go.mod'' ''repo'' [] pwd_tidied st_fresh = Normal (e2, p2, s2)"
    by blast
  from process_state_changed_and_left [of ext_ok "[]" root_foo st_fresh 2 "''repo''" e p s _ _ _ _]
    run u chd unz np path
  have a: "env s GOPROXY = None"
    and b: "cwd (snd (snd (createDependencyAndPrepareMod ext_ok root_foo st_fresh)))
              = ''/tmp/example.com/foo@v1.0.0/go.mod/..''"
    by simp_all
  from process_state_changed_and_left [of ext_ok "''/tmp/w/go.mod''" pwd_tidied st_fresh 0 "''repo''"
      _ _ _ "PopulateModAndPublish 0 ext_ok ''repo''" e2 p2 s2] leaf nil i
  have d: "cwd s2 = ''/home''"
    by simp
  from i run a c unz np b nil leaf d show ?thesis
    by blast
qed




text \<open>
  C8 (as amended). Over a run of populate-and-publish on a node that starts without
  children, the counters satisfy \<open>successes + failures = totals + own\<close> in what the run adds
  to them, where \<open>own\<close> is 0 or 1 and stands for the top-level node itself (its publish call,
  or its failed refresh), which no total counts; it is 1 when the node's ID was recorded as
  not published. A child that is skipped because it is already published is counted as a
  success, so the skipped nodes are part of the successes and not a further term: the
  successes grow at least by the number of skipped children.
\<close>

theorem counters_conserved:
  assumes run: "PopulateModAndPublish n ext targetRepo pwd st = Normal (e, pwd', st')"
    and nil: "transitiveDependencies pwd = []"
  shows "(\<exists>own. successes (cache st') + failures (cache st') + total (cache st)
                  = successes (cache st) + failures (cache st) + total (cache st') + own \<and>
                own \<le> 1 \<and> (GetMap (cache st) (GetId pwd) = Some False \<longrightarrow> own = 1)) \<and>
         skipped (trace st') + successes (cache st) \<le> successes (cache st') + skipped (trace st)"
proof -
  from rec_skips_PopulateModAndPublish [of n ext targetRepo] run
  have "skips_counted st st'"
    unfolding rec_skips_def by blast
  with PopulateModAndPublish_balanced [OF run nil] show ?thesis
    by (simp add: settled_def skips_counted_def)
qed

theorem counters_conserved_witness:
  "transitiveDependencies root_foo = [] \<and>
   (\<exists>e p s. PopulateModAndPublish 2 ext_in_repo ''repo'' root_foo st_fresh = Normal (e, p, s) \<and>
      total (cache s) = 1 \<and> successes (cache s) = 2 \<and> failures (cache s) = 0 \<and>
      skipped (trace s) = 1 \<and>
      successes (cache s) + failures (cache s) + total (cache st_fresh)
        \<le> successes (cache st_fresh) + failures (cache st_fresh) + total (cache s) + 1 \<and>
      skipped (trace s) + successes (cache st_fresh) \<le> successes (cache s) + skipped (trace st_fresh))"
proof -
  have nil: "transitiveDependencies root_foo = []"
    by (simp add: example_defs)
  have "\<exists>e p s. PopulateModAndPublish 2 ext_in_repo ''repo'' root_foo st_fresh = Normal (e, p, s) \<and>
      total (cache s) = 1 \<and> successes (cache s) = 2 \<and> failures (cache s) = 0 \<and>
      skipped (trace s) = 1"
    by (simp add: eval_nat_numeral Let_def model_defs example_defs)
  then obtain e p s where
    run: "PopulateModAndPublish 2 ext_in_repo ''repo'' root_foo st_fresh = Normal (e, p, s)"
    and v: "total (cache s) = 1" "successes (cache s) = 2" "failures (cache s) = 0"
      "skipped (trace s) = 1"
    by blast
  from counters_conserved [OF run nil] obtain own where
    "successes (cache s) + failures (cache s) + total (cache st_fresh)
       = successes (cache st_fresh) + failures (cache st_fresh) + total (cache s) + own"
    "own \<le> 1"
    "skipped (trace s) + successes (cache st_fresh) \<le> successes (cache s) + skipped (trace st_fresh)"
    by blast
  then have "successes (cache s) + failures (cache s) + total (cache st_fresh)
        \<le> successes (cache st_fresh) + failures (cache st_fresh) + total (cache s) + 1"
    "skipped (trace s) + successes (cache st_fresh) \<le> successes (cache s) + skipped (trace st_fresh)"
    by simp_all
  with nil run v show ?thesis
    by blast
qed

text \<open>
  C8 as stated fails: with one child that the repository already has, the run ends with
  total 1, successes 2, failures 0 and one skipped node on a fresh root, and with total 1,
  successes 1, failures 0 and one skipped node on a root that is already published.
\<close>

theorem skipped_nodes_counted_twice:
  "result_counts (PopulateModAndPublish 2 ext_in_repo ''repo'' root_foo st_fresh) = Some (1, 2, 0, 1) \<and>
   (1::nat) \<noteq> 2 + 0 + 1 \<and>
   result_counts (PopulateModAndPublish 2 ext_in_repo ''repo'' root_foo st_published) = Some (1, 1, 0, 1) \<and>
   (1::nat) \<noteq> 1 + 0 + 1"
  by (simp add: result_counts_def eval_nat_numeral Let_def model_defs example_defs)

end
